theory Spec2Isabelle
  imports Complex_Main "HOL-Library.Product_Lexorder" "HOL-Library.Sublist"
    "HOL-Library.Multiset" "HOL-Library.Log_Nat"
begin

section \<open>The blog's request handlers (app/blog/views.py)\<close>

text \<open>
  The five views of \<^verbatim>\<open>views.py\<close> are embedded as functions from the state of the
  site (the tables, the outbox of the mail gateway, the clock) and a request to either an
  error or the context handed to the template renderer. The framework calls the views make
  (\<^verbatim>\<open>get_object_or_404\<close>, \<^verbatim>\<open>Paginator\<close>, \<^verbatim>\<open>require_POST\<close>, query sets,
  \<^verbatim>\<open>send_mail\<close>, \<^verbatim>\<open>TrigramSimilarity\<close>) are embedded by what they compute; every
  exception they raise towards the view is a value of \<open>error\<close>.
\<close>

subsection \<open>Data model\<close>

datatype Status = DRAFT | PUBLISHED

text \<open>A timestamp in the site's time zone: the calendar date and the time of day
  (microseconds since midnight). Timestamps compare as Python's do, field by field.\<close>

record datetime =
  dt_year :: int
  dt_month :: int
  dt_day :: int
  dt_time :: int

definition dt_key :: "datetime \<Rightarrow> int \<times> int \<times> int \<times> int" where
  "dt_key d = (dt_year d, dt_month d, dt_day d, dt_time d)"

definition dt_le :: "datetime \<Rightarrow> datetime \<Rightarrow> bool" where
  "dt_le a b \<longleftrightarrow> dt_key a \<le> dt_key b"

text \<open>The fields of a post that the views read. \<open>pk\<close> is the primary key (\<^verbatim>\<open>id\<close>),
  \<open>tags\<close> the ids of the tags associated with the post.\<close>

record post =
  pk :: int
  title :: string
  slug :: string
  body :: string
  publish :: datetime
  status :: Status
  tags :: "int set"

record tag =
  t_pk :: int
  t_slug :: string

text \<open>A comment built by a form has no primary key, no post and no creation time yet;
  \<^verbatim>\<open>save()\<close> assigns the key and the time.\<close>

record comment =
  c_pk :: "int option"
  c_post :: "int option"
  c_name :: string
  c_email :: string
  c_body :: string
  c_active :: bool
  c_created :: "datetime option"

record email =
  subject :: string
  message :: string
  from_email :: string
  recipient_list :: "string list"

text \<open>The state of the site: the rows of the three tables, in the order the database
  returns them (\<open>Post_objects\<close> is what the default manager of \<^verbatim>\<open>Post\<close> sees, and what
  \<^verbatim>\<open>get_object_or_404(Post, ...)\<close> searches), the messages handed to the mail gateway, and
  the current time.\<close>

record world =
  Post_objects :: "post list"
  Tag_objects :: "tag list"
  Comment_objects :: "comment list"
  outbox :: "email list"
  now :: datetime

datatype error =
  Http404
  | MultipleObjectsReturned
  | HttpResponseNotAllowed
  | PageNotAnInteger
  | EmptyPage
  | AttributeError
  | ValueError
  | OverflowError
  | BadHeaderError

subsection \<open>Requests and forms\<close>

type_synonym querydict = "string \<rightharpoonup> string"

record request =
  http_method :: string
  GET :: querydict
  POST :: querydict
  build_absolute_uri :: "string \<Rightarrow> string"

text \<open>A form is unbound, or bound to submitted data; a bound form carries the field errors
  and the cleaned data its class computed from the data. \<^verbatim>\<open>is_valid()\<close> is
  \<^verbatim>\<open>self.is_bound and not self.errors\<close>.\<close>

type_synonym field_errors = "(string \<times> string) list"

datatype 'c form = Unbound | Bound querydict field_errors 'c

type_synonym 'c form_class = "querydict \<Rightarrow> field_errors \<times> 'c"

definition bind :: "'c form_class \<Rightarrow> querydict \<Rightarrow> 'c form" where
  "bind cls d = Bound d (fst (cls d)) (snd (cls d))"

fun is_bound :: "'c form \<Rightarrow> bool" where
  "is_bound Unbound = False"
| "is_bound (Bound d errs cd) = True"

fun errors :: "'c form \<Rightarrow> field_errors" where
  "errors Unbound = []"
| "errors (Bound d errs cd) = errs"

fun is_valid :: "'c form \<Rightarrow> bool" where
  "is_valid Unbound = False"
| "is_valid (Bound d errs cd) = (errs = [])"

text \<open>An unbound form has no attribute \<^verbatim>\<open>cleaned_data\<close>.\<close>

fun cleaned_data :: "'c form \<Rightarrow> 'c option" where
  "cleaned_data Unbound = None"
| "cleaned_data (Bound d errs cd) = Some cd"

record email_cleaned =
  cd_name :: string
  cd_email :: string
  cd_to :: string
  cd_comments :: string

record comment_cleaned =
  cc_name :: string
  cc_email :: string
  cc_body :: string

text \<open>\<^verbatim>\<open>models.py\<close> and \<^verbatim>\<open>forms.py\<close> are not among the sources. What the views take
  from them and the specification leaves open is a parameter of the model: the URL of a
  post and the validation done by the three form classes.\<close>

record app =
  get_absolute_url :: "post \<Rightarrow> string"
  EmailPostForm :: "email_cleaned form_class"
  CommentForm :: "comment_cleaned form_class"
  SearchForm :: "string form_class"

subsection \<open>Query sets\<close>

text \<open>\<^verbatim>\<open>get_object_or_404(klass, **kwargs)\<close>: \<^verbatim>\<open>get\<close> on the rows that satisfy the
  lookups. No row raises \<^verbatim>\<open>DoesNotExist\<close>, which becomes \<^verbatim>\<open>Http404\<close>; several rows
  raise \<^verbatim>\<open>MultipleObjectsReturned\<close>, which is not caught.\<close>

definition get_object_or_404 :: "'a list \<Rightarrow> ('a \<Rightarrow> bool) \<Rightarrow> error + 'a" where
  "get_object_or_404 rows lookups =
     (case filter lookups rows of
        [] \<Rightarrow> Inl Http404
      | [x] \<Rightarrow> Inr x
      | x # y # zs \<Rightarrow> Inl MultipleObjectsReturned)"

text \<open>Modelled from the spec: the manager \<^verbatim>\<open>Post.published\<close> of \<^verbatim>\<open>models.py\<close>. A
  published post is \<open>a post with status PUBLISHED and publish timestamp not in the
  future\<close>.\<close>

definition published :: "world \<Rightarrow> post \<Rightarrow> bool" where
  "published w p \<longleftrightarrow> status p = PUBLISHED \<and> dt_le (publish p) (now w)"

definition Post_published :: "world \<Rightarrow> post list" where
  "Post_published w = filter (published w) (Post_objects w)"

text \<open>\<^verbatim>\<open>order_by\<close>: a stable sort; \<open>le a b\<close> says that \<open>a\<close> may come before \<open>b\<close>.\<close>

fun insort_by :: "('a \<Rightarrow> 'a \<Rightarrow> bool) \<Rightarrow> 'a \<Rightarrow> 'a list \<Rightarrow> 'a list" where
  "insort_by le x [] = [x]"
| "insort_by le x (y # ys) = (if le x y then x # y # ys else y # insort_by le x ys)"

definition order_by :: "('a \<Rightarrow> 'a \<Rightarrow> bool) \<Rightarrow> 'a list \<Rightarrow> 'a list" where
  "order_by le xs = foldr (insort_by le) xs []"

subsection \<open>Post detail\<close>

record detail_context =
  dc_post :: post
  dc_comments :: "comment list"
  dc_form :: "comment_cleaned form"
  dc_similar_posts :: "(post \<times> nat) list"

text \<open>The lookup \<^verbatim>\<open>publish__year=year\<close> is compiled into the bounds
  \<^verbatim>\<open>datetime(year, 1, 1)\<close> and \<^verbatim>\<open>datetime(year, 12, 31, ...)\<close> before any row is read:
  Python raises \<^verbatim>\<open>OverflowError\<close> for a year that is no C \<^verbatim>\<open>int\<close> and
  \<^verbatim>\<open>ValueError\<close> for another year outside 1..9999, and the view catches neither. The
  lookups of the month and the day extract the field and compare it, whatever the number.

  The similar posts are paired with their \<^verbatim>\<open>same_tags\<close> annotation. The filter
  \<^verbatim>\<open>tags__in\<close> joins the posts with their tags, and \<^verbatim>\<open>Count('tags')\<close> counts, for each
  post, the joined rows: the tags it has among \<^verbatim>\<open>post_tags_ids\<close>.\<close>

definition by_same_tags_publish :: "post \<times> nat \<Rightarrow> post \<times> nat \<Rightarrow> bool" where
  "by_same_tags_publish a b \<longleftrightarrow>
     snd a > snd b \<or> (snd a = snd b \<and> dt_le (publish (fst b)) (publish (fst a)))"

definition post_detail ::
  "app \<Rightarrow> world \<Rightarrow> request \<Rightarrow> int \<Rightarrow> int \<Rightarrow> int \<Rightarrow> string \<Rightarrow> error + detail_context" where
  "post_detail ap w req year month day post_slug =
     (if year < - 2147483648 \<or> 2147483647 < year then Inl OverflowError
      else if year < 1 \<or> 9999 < year then Inl ValueError
      else
      case get_object_or_404 (Post_objects w)
             (\<lambda>p. status p = PUBLISHED \<and>
                  dt_year (publish p) = year \<and>
                  dt_month (publish p) = month \<and>
                  dt_day (publish p) = day \<and>
                  slug p = post_slug) of
        Inl e \<Rightarrow> Inl e
      | Inr post \<Rightarrow>
          (let comments = filter (\<lambda>c. c_post c = Some (pk post) \<and> c_active c) (Comment_objects w);
               form = Unbound;
               post_tags_ids = tags post;
               similar = filter (\<lambda>p. pk p \<noteq> pk post)
                           (filter (\<lambda>p. tags p \<inter> post_tags_ids \<noteq> {}) (Post_published w));
               annotated = map (\<lambda>p. (p, card (tags p \<inter> post_tags_ids))) similar;
               similar_posts = take 4 (order_by by_same_tags_publish annotated)
           in Inr \<lparr>dc_post = post, dc_comments = comments, dc_form = form,
                   dc_similar_posts = similar_posts\<rparr>))"

subsection \<open>Pagination\<close>

text \<open>\<^verbatim>\<open>request.GET.get('page', 1)\<close> is the submitted string, or the integer 1.\<close>

datatype page_value = PyInt int | PyStr string

text \<open>The paginator reads the page value with Python's \<^verbatim>\<open>int\<close>. The reading of a
  string is a parameter \<open>int_of\<close> of the pagination, \<open>None\<close> where \<^verbatim>\<open>int\<close> raises
  \<^verbatim>\<open>ValueError\<close>: what is proved of the list view holds for every such function.

  \<open>py_int\<close> is CPython's \<^verbatim>\<open>int(s)\<close> for a string of code points below 256 (a
  \<open>char\<close> is its code point). White space around the number is dropped: the blank and
  the characters 9 to 13, and the two white space characters above 127, U+0085 and U+00A0;
  the characters 28 to 31 are not dropped. A sign may come first, and the digits, which
  are the ASCII digits (no other character below 256 is a decimal digit), may be separated
  by single underscores. More than 4300 digits are refused (the interpreter's default
  limit).\<close>

definition is_space :: "char \<Rightarrow> bool" where
  "is_space c \<longleftrightarrow> c = CHR '' '' \<or> (9 \<le> (of_char c :: nat) \<and> (of_char c :: nat) \<le> 13)
     \<or> c = CHR 0x85 \<or> c = CHR 0xA0"

definition is_digit :: "char \<Rightarrow> bool" where
  "is_digit c \<longleftrightarrow> 48 \<le> (of_char c :: nat) \<and> (of_char c :: nat) \<le> 57"

definition digit_value :: "char \<Rightarrow> int" where
  "digit_value c = int (of_char c) - 48"

definition strip :: "string \<Rightarrow> string" where
  "strip s = rev (dropWhile is_space (rev (dropWhile is_space s)))"

fun py_digits_from :: "int \<Rightarrow> string \<Rightarrow> int option" where
  "py_digits_from acc [] = Some acc"
| "py_digits_from acc (c # cs) =
     (if is_digit c then py_digits_from (10 * acc + digit_value c) cs
      else if c = CHR ''_'' then
        (case cs of
           [] \<Rightarrow> None
         | d # ds \<Rightarrow> if is_digit d then py_digits_from (10 * acc + digit_value d) ds else None)
      else None)"

definition py_digits :: "string \<Rightarrow> int option" where
  "py_digits s =
     (case s of
        [] \<Rightarrow> None
      | c # cs \<Rightarrow> if is_digit c then py_digits_from (digit_value c) cs else None)"

definition py_int :: "string \<Rightarrow> int option" where
  "py_int s =
     (let t = strip s in
      if length (filter is_digit t) > 4300 then None
      else case t of
        [] \<Rightarrow> None
      | c # cs \<Rightarrow>
          if c = CHR ''-'' then map_option uminus (py_digits cs)
          else if c = CHR ''+'' then py_digits cs
          else py_digits t)"

fun to_int :: "(string \<Rightarrow> int option) \<Rightarrow> page_value \<Rightarrow> int option" where
  "to_int int_of (PyInt n) = Some n"
| "to_int int_of (PyStr s) = int_of s"

text \<open>\<^verbatim>\<open>Paginator(object_list, per_page)\<close>, with the defaults \<^verbatim>\<open>orphans=0\<close> and
  \<^verbatim>\<open>allow_empty_first_page=True\<close>.\<close>

record 'a paginator =
  pg_object_list :: "'a list"
  per_page :: int

record 'a page =
  object_list :: "'a list"
  number :: int
  paginator :: "'a paginator"

definition count :: "'a paginator \<Rightarrow> int" where
  "count pg = int (length (pg_object_list pg))"

text \<open>\<^verbatim>\<open>hits = max(1, self.count - self.orphans); ceil(hits / self.per_page)\<close>\<close>

definition num_pages :: "'a paginator \<Rightarrow> int" where
  "num_pages pg = (let hits = max 1 (count pg) in - ((- hits) div per_page pg))"

definition validate_number ::
  "(string \<Rightarrow> int option) \<Rightarrow> 'a paginator \<Rightarrow> page_value \<Rightarrow> error + int" where
  "validate_number int_of pg v =
     (case to_int int_of v of
        None \<Rightarrow> Inl PageNotAnInteger
      | Some n \<Rightarrow>
          if n < 1 then Inl EmptyPage
          else if n > num_pages pg then Inl EmptyPage
          else Inr n)"

definition get_page ::
  "(string \<Rightarrow> int option) \<Rightarrow> 'a paginator \<Rightarrow> page_value \<Rightarrow> error + 'a page" where
  "get_page int_of pg v =
     (case validate_number int_of pg v of
        Inl e \<Rightarrow> Inl e
      | Inr n \<Rightarrow>
          (let bottom = (n - 1) * per_page pg;
               top = bottom + per_page pg;
               top = (if top \<ge> count pg then count pg else top)
           in Inr \<lparr>object_list = take (nat (top - bottom)) (drop (nat bottom) (pg_object_list pg)),
                   number = n, paginator = pg\<rparr>))"

subsection \<open>Post list\<close>

record list_context =
  lc_posts :: "post page"
  lc_tag :: "tag option"

definition post_list ::
  "(string \<Rightarrow> int option) \<Rightarrow> world \<Rightarrow> request \<Rightarrow> string option \<Rightarrow> error + list_context" where
  "post_list int_of w req tag_slug =
     (let all_published = Post_published w;
          filtered =
            (case tag_slug of
               None \<Rightarrow> Inr (None, all_published)
             | Some s \<Rightarrow>
                 if s = [] then Inr (None, all_published)
                 else (case get_object_or_404 (Tag_objects w) (\<lambda>t. t_slug t = s) of
                         Inl e \<Rightarrow> Inl e
                       | Inr tag \<Rightarrow>
                           Inr (Some tag, filter (\<lambda>p. t_pk tag \<in> tags p) all_published)))
      in case filtered of
           Inl e \<Rightarrow> Inl e
         | Inr (tag, posts_qs) \<Rightarrow>
             (let pg = \<lparr>pg_object_list = posts_qs, per_page = 3\<rparr>;
                  page_number = (case GET req ''page'' of None \<Rightarrow> PyInt 1 | Some s \<Rightarrow> PyStr s);
                  posts =
                    (case get_page int_of pg page_number of
                       Inr pa \<Rightarrow> Inr pa
                     | Inl e \<Rightarrow>
                         if e = PageNotAnInteger then get_page int_of pg (PyInt 1)
                         else if e = EmptyPage then get_page int_of pg (PyInt (num_pages pg))
                         else Inl e)
              in case posts of
                   Inl e \<Rightarrow> Inl e
                 | Inr pa \<Rightarrow> Inr \<lparr>lc_posts = pa, lc_tag = tag\<rparr>))"

subsection \<open>Share a post by e-mail\<close>

record share_context =
  sh_post :: post
  sh_form :: "email_cleaned form"
  sh_sent :: bool

text \<open>\<^verbatim>\<open>send_mail\<close> hands one message to the mail backend. With no recipient left
  once the empty addresses are dropped, nothing is sent and the call returns. Otherwise
  the backend builds the message, and a carriage return or a line feed in the subject, the
  sender or a recipient raises \<^verbatim>\<open>BadHeaderError\<close>: nothing is sent, and the view does not
  catch it. Otherwise the outbox grows by the message. What the transport does with a
  message it was handed has no value here.\<close>

definition has_newline :: "string \<Rightarrow> bool" where
  "has_newline s \<longleftrightarrow> CHR 0x0A \<in> set s \<or> CHR 0x0D \<in> set s"

definition send_mail ::
  "string \<Rightarrow> string \<Rightarrow> string \<Rightarrow> string list \<Rightarrow> world \<Rightarrow> error + world" where
  "send_mail subj msg sender recipients w =
     (if filter (\<lambda>r. r \<noteq> []) recipients = [] then Inr w
      else if has_newline subj \<or> has_newline sender \<or> list_ex has_newline recipients
        then Inl BadHeaderError
      else Inr (w\<lparr>outbox := outbox w @
                  [\<lparr>subject = subj, message = msg, from_email = sender,
                    recipient_list = recipients\<rparr>]\<rparr>))"

definition post_share :: "app \<Rightarrow> world \<Rightarrow> request \<Rightarrow> int \<Rightarrow> error + share_context \<times> world" where
  "post_share ap w req post_id =
     (case get_object_or_404 (Post_objects w) (\<lambda>p. pk p = post_id \<and> status p = PUBLISHED) of
        Inl e \<Rightarrow> Inl e
      | Inr post \<Rightarrow>
          if http_method req = ''POST'' then
            (let form = bind (EmailPostForm ap) (POST req) in
             if is_valid form then
               (case cleaned_data form of
                  None \<Rightarrow> Inl AttributeError
                | Some cd \<Rightarrow>
                    (let post_url = build_absolute_uri req (get_absolute_url ap post);
                         subj = cd_name cd @ '' recommends you read '' @ title post;
                         msg = ''Read '' @ title post @ '' at '' @ post_url @ [CHR 0x0A, CHR 0x0A]
                               @ cd_name cd @ [CHR 0x27] @ ''s comments: '' @ cd_comments cd
                     in case send_mail subj msg ''danylov.lv@gmail.com'' [cd_to cd] w of
                          Inl e \<Rightarrow> Inl e
                        | Inr w' \<Rightarrow>
                            Inr (\<lparr>sh_post = post, sh_form = form, sh_sent = True\<rparr>, w')))
             else Inr (\<lparr>sh_post = post, sh_form = form, sh_sent = False\<rparr>, w))
          else Inr (\<lparr>sh_post = post, sh_form = Unbound, sh_sent = False\<rparr>, w))"

subsection \<open>Comment on a post\<close>

record comment_context =
  cm_post :: post
  cm_form :: "comment_cleaned form"
  cm_comment :: "comment option"

text \<open>Modelled from the spec: the \<^verbatim>\<open>Comment\<close> model of \<^verbatim>\<open>models.py\<close> and the model
  form \<^verbatim>\<open>CommentForm\<close> of \<^verbatim>\<open>forms.py\<close>. \<^verbatim>\<open>form.save(commit=False)\<close> builds a comment
  from the validated fields (author name, author e-mail, body text) without storing it; the
  \<open>active flag\<close> is \<open>default true\<close>.\<close>

definition form_save :: "comment_cleaned \<Rightarrow> comment" where
  "form_save cd =
     \<lparr>c_pk = None, c_post = None, c_name = cc_name cd, c_email = cc_email cd,
      c_body = cc_body cd, c_active = True, c_created = None\<rparr>"

text \<open>\<^verbatim>\<open>comment.save()\<close> inserts the row under a fresh primary key, stamped with the
  current time.\<close>

definition next_pk :: "comment list \<Rightarrow> int" where
  "next_pk cs = fold max (map (\<lambda>c. case c_pk c of None \<Rightarrow> 0 | Some k \<Rightarrow> k) cs) 0 + 1"

definition comment_save :: "comment \<Rightarrow> world \<Rightarrow> comment \<times> world" where
  "comment_save c w =
     (let c' = c\<lparr>c_pk := Some (next_pk (Comment_objects w)), c_created := Some (now w)\<rparr>
      in (c', w\<lparr>Comment_objects := Comment_objects w @ [c']\<rparr>))"

definition post_comment ::
  "app \<Rightarrow> world \<Rightarrow> request \<Rightarrow> int \<Rightarrow> error + comment_context \<times> world" where
  "post_comment ap w req post_id =
     (if http_method req \<noteq> ''POST'' then Inl HttpResponseNotAllowed
      else
        case get_object_or_404 (Post_objects w) (\<lambda>p. pk p = post_id \<and> status p = PUBLISHED) of
          Inl e \<Rightarrow> Inl e
        | Inr post \<Rightarrow>
            (let form = bind (CommentForm ap) (POST req) in
             if is_valid form then
               (case cleaned_data form of
                  None \<Rightarrow> Inl AttributeError
                | Some cd \<Rightarrow>
                    (let c = form_save cd;
                         c = c\<lparr>c_post := Some (pk post)\<rparr>;
                         (c, w') = comment_save c w
                     in Inr (\<lparr>cm_post = post, cm_form = form, cm_comment = Some c\<rparr>, w')))
             else Inr (\<lparr>cm_post = post, cm_form = form, cm_comment = None\<rparr>, w)))"

subsection \<open>Search\<close>

text \<open>\<^verbatim>\<open>TrigramSimilarity\<close> is the function \<^verbatim>\<open>similarity\<close> of PostgreSQL's
  \<^verbatim>\<open>pg_trgm\<close>: both texts are lower-cased and cut into words at every character that is
  not a letter or a digit; each word, with two blanks before it and one after, gives its
  three-character windows; the similarity is the number of trigrams the two texts share
  divided by the number of trigrams in either, and 0 when a text has no trigram. The
  model is on ASCII text.

  The similarity is a \<^verbatim>\<open>real\<close> of PostgreSQL, an IEEE single-precision number: the
  quotient of the two counts is rounded to 24 significant bits, to the nearest number and
  to the even one of two nearest (the counts themselves, at most \<open>2^24\<close>, are single-precision
  numbers). \<open>float4\<close> is this rounding of a rational number, down to the subnormal
  numbers; the numbers of the search are far from the overflow, which it leaves out. The
  sum of the two similarities is again a \<^verbatim>\<open>real\<close>, rounded in the same way, and is
  compared with 0.1 in double precision, that is, with the double-precision number nearest
  to 0.1.\<close>

definition round_half_even :: "rat \<Rightarrow> int" where
  "round_half_even y =
     (let f = \<lfloor>y\<rfloor>; r = y - of_int f
      in if r < 1 / 2 then f else if 1 / 2 < r then f + 1 else if even f then f else f + 1)"

text \<open>For \<open>y > 0\<close>, the exponent \<open>e\<close> with \<open>2^e \<le> y < 2^(e+1)\<close>.\<close>

definition ilog2 :: "rat \<Rightarrow> int" where
  "ilog2 y =
     (let k = bitlen (fst (quotient_of y)) - bitlen (snd (quotient_of y))
      in if 2 powi k \<le> y then k else k - 1)"

definition float4 :: "rat \<Rightarrow> rat" where
  "float4 x =
     (if x = 0 then 0
      else let e = max (ilog2 \<bar>x\<bar>) (- 126); u = 2 powi (e - 23)
           in sgn x * of_int (round_half_even (\<bar>x\<bar> / u)) * u)"

definition float8_tenth :: rat where
  "float8_tenth = 3602879701896397 / 36028797018963968"

definition lower :: "char \<Rightarrow> char" where
  "lower c = (if 65 \<le> (of_char c :: nat) \<and> (of_char c :: nat) \<le> 90
              then char_of ((of_char c :: nat) + 32) else c)"

definition is_alnum :: "char \<Rightarrow> bool" where
  "is_alnum c \<longleftrightarrow> is_digit c \<or> (65 \<le> (of_char c :: nat) \<and> (of_char c :: nat) \<le> 90)
     \<or> (97 \<le> (of_char c :: nat) \<and> (of_char c :: nat) \<le> 122)"

fun split_words :: "string \<Rightarrow> string \<Rightarrow> string list" where
  "split_words cur [] = (if cur = [] then [] else [cur])"
| "split_words cur (c # cs) =
     (if is_alnum c then split_words (cur @ [c]) cs
      else if cur = [] then split_words [] cs
      else cur # split_words [] cs)"

fun windows3 :: "string \<Rightarrow> string list" where
  "windows3 (a # b # c # rest) = [a, b, c] # windows3 (b # c # rest)"
| "windows3 s = []"

definition trigrams :: "string \<Rightarrow> string set" where
  "trigrams s =
     set (concat (map (\<lambda>wd. windows3 (''  '' @ wd @ '' '')) (split_words [] (map lower s))))"

definition TrigramSimilarity :: "string \<Rightarrow> string \<Rightarrow> rat" where
  "TrigramSimilarity field query =
     (let A = trigrams field; B = trigrams query in
      if card A = 0 \<or> card B = 0 then 0
      else float4 (of_nat (card (A \<inter> B)) / of_nat (card A + card B - card (A \<inter> B))))"

record search_context =
  sr_form :: "string form"
  sr_query :: "string option"
  sr_results :: "(post \<times> rat) list"

text \<open>The results are paired with their \<^verbatim>\<open>similarity\<close> annotation.\<close>

definition by_similarity :: "post \<times> rat \<Rightarrow> post \<times> rat \<Rightarrow> bool" where
  "by_similarity a b \<longleftrightarrow> snd a \<ge> snd b"

definition post_search :: "app \<Rightarrow> world \<Rightarrow> request \<Rightarrow> error + search_context" where
  "post_search ap w req =
     (if GET req ''query'' \<noteq> None then
        (let form = bind (SearchForm ap) (GET req) in
         if is_valid form then
           (case cleaned_data form of
              None \<Rightarrow> Inl AttributeError
            | Some query \<Rightarrow>
                (let annotated = map (\<lambda>p. (p, float4 (TrigramSimilarity (title p) query
                                                     + TrigramSimilarity (body p) query)))
                                   (Post_published w);
                     results = order_by by_similarity
                                 (filter (\<lambda>r. snd r \<ge> float8_tenth) annotated)
                 in Inr \<lparr>sr_form = form, sr_query = Some query, sr_results = results\<rparr>))
         else Inr \<lparr>sr_form = form, sr_query = None, sr_results = []\<rparr>)
      else Inr \<lparr>sr_form = Unbound, sr_query = None, sr_results = []\<rparr>)"

section \<open>A site to run the views on\<close>

text \<open>The form classes below stand for those of \<^verbatim>\<open>forms.py\<close> when a view is
  evaluated on a concrete request: every field but the comment text of the share form is
  required, and an e-mail address has an \<^verbatim>\<open>@\<close>.\<close>

definition field_value :: "querydict \<Rightarrow> string \<Rightarrow> string" where
  "field_value d k = (case d k of None \<Rightarrow> [] | Some v \<Rightarrow> v)"

definition required :: "querydict \<Rightarrow> string \<Rightarrow> field_errors" where
  "required d k = (if field_value d k = [] then [(k, ''This field is required.'')] else [])"

definition email_field :: "querydict \<Rightarrow> string \<Rightarrow> field_errors" where
  "email_field d k =
     (if field_value d k = [] then [(k, ''This field is required.'')]
      else if CHR ''@'' \<notin> set (field_value d k) then [(k, ''Enter a valid email address.'')]
      else [])"

definition blog_EmailPostForm :: "email_cleaned form_class" where
  "blog_EmailPostForm d =
     (required d ''name'' @ email_field d ''email'' @ email_field d ''to'',
      \<lparr>cd_name = field_value d ''name'', cd_email = field_value d ''email'',
       cd_to = field_value d ''to'', cd_comments = field_value d ''comments''\<rparr>)"

definition blog_CommentForm :: "comment_cleaned form_class" where
  "blog_CommentForm d =
     (required d ''name'' @ email_field d ''email'' @ required d ''body'',
      \<lparr>cc_name = field_value d ''name'', cc_email = field_value d ''email'',
       cc_body = field_value d ''body''\<rparr>)"

definition blog_SearchForm :: "string form_class" where
  "blog_SearchForm d = (required d ''query'', field_value d ''query'')"

definition post_path :: "post \<Rightarrow> string" where
  "post_path p = ''/blog/'' @ slug p @ ''/''"

definition blog :: app where
  "blog = \<lparr>get_absolute_url = post_path, EmailPostForm = blog_EmailPostForm,
            CommentForm = blog_CommentForm, SearchForm = blog_SearchForm\<rparr>"

definition testserver :: "string \<Rightarrow> string" where
  "testserver location = ''http://testserver'' @ location"

definition http_get :: "querydict \<Rightarrow> request" where
  "http_get params =
     \<lparr>http_method = ''GET'', GET = params, POST = Map.empty, build_absolute_uri = testserver\<rparr>"

definition http_post :: "querydict \<Rightarrow> request" where
  "http_post form_data =
     \<lparr>http_method = ''POST'', GET = Map.empty, POST = form_data, build_absolute_uri = testserver\<rparr>"

definition at_date :: "int \<Rightarrow> int \<Rightarrow> int \<Rightarrow> datetime" where
  "at_date y m d = \<lparr>dt_year = y, dt_month = m, dt_day = d, dt_time = 0\<rparr>"

definition p_django :: post where
  "p_django = \<lparr>pk = 1, title = ''Django'', slug = ''django'', body = ''django'',
                publish = at_date 2024 3 1, status = PUBLISHED, tags = {1, 2}\<rparr>"

definition p_hello :: post where
  "p_hello = \<lparr>pk = 2, title = ''Hello'', slug = ''hello'', body = ''hello world'',
               publish = at_date 2024 3 1, status = PUBLISHED, tags = {1}\<rparr>"

definition p_soon :: post where
  "p_soon = \<lparr>pk = 3, title = ''Soon'', slug = ''soon'', body = ''not yet'',
              publish = at_date 2030 1 1, status = PUBLISHED, tags = {2}\<rparr>"

definition p_draft :: post where
  "p_draft = \<lparr>pk = 4, title = ''django'', slug = ''draft'', body = ''django'',
               publish = at_date 2024 1 1, status = DRAFT, tags = {1, 2}\<rparr>"

definition p_flask :: post where
  "p_flask = \<lparr>pk = 5, title = ''Flask'', slug = ''flask'', body = ''flask and django'',
               publish = at_date 2024 5 7, status = PUBLISHED, tags = {1, 2}\<rparr>"

definition p_notes :: post where
  "p_notes = \<lparr>pk = 6, title = ''Notes'', slug = ''notes'', body = ''misc'',
               publish = at_date 2025 2 2, status = PUBLISHED, tags = {3}\<rparr>"

definition site :: world where
  "site = \<lparr>Post_objects = [p_django, p_hello, p_soon, p_draft, p_flask, p_notes],
            Tag_objects = [\<lparr>t_pk = 1, t_slug = ''python''\<rparr>, \<lparr>t_pk = 2, t_slug = ''web''\<rparr>,
                           \<lparr>t_pk = 3, t_slug = ''misc''\<rparr>],
            Comment_objects = [], outbox = [], now = at_date 2026 11 3\<rparr>"

text \<open>A site on which two posts of the same day have the same slug.\<close>

definition p_hello_again :: post where
  "p_hello_again = \<lparr>pk = 7, title = ''Hello again'', slug = ''hello'', body = ''once more'',
                     publish = at_date 2024 3 1, status = PUBLISHED, tags = {1}\<rparr>"

definition twin_site :: world where
  "twin_site = \<lparr>Post_objects = [p_hello, p_hello_again], Tag_objects = [],
                 Comment_objects = [], outbox = [], now = at_date 2026 11 3\<rparr>"

text \<open>Requests to the site.\<close>

definition plain_get :: request where
  "plain_get = http_get Map.empty"

definition ann_comment :: request where
  "ann_comment = http_post [''name'' \<mapsto> ''Ann'', ''email'' \<mapsto> ''ann@example.com'',
                            ''body'' \<mapsto> ''Nice post'']"

definition anonymous_comment :: request where
  "anonymous_comment = http_post [''name'' \<mapsto> '''', ''email'' \<mapsto> ''ann@example.com'',
                                  ''body'' \<mapsto> ''Nice post'']"

definition ann_share :: request where
  "ann_share = http_post [''name'' \<mapsto> ''Ann'', ''email'' \<mapsto> ''ann@example.com'',
                          ''to'' \<mapsto> ''bob@example.com'', ''comments'' \<mapsto> ''Worth a look'']"

definition bad_share :: request where
  "bad_share = http_post [''name'' \<mapsto> ''Ann'', ''email'' \<mapsto> ''ann@example.com'',
                          ''to'' \<mapsto> ''bob'', ''comments'' \<mapsto> ''Worth a look'']"

text \<open>A share whose sender name has a line feed in it.\<close>

definition two_line_share :: request where
  "two_line_share = http_post [''name'' \<mapsto> ''Ann'' @ [CHR 0x0A] @ ''Bcc: eve@example.org'',
                               ''email'' \<mapsto> ''ann@example.com'',
                               ''to'' \<mapsto> ''bob@example.com'', ''comments'' \<mapsto> ''Worth a look'']"


definition page_abc :: request where
  "page_abc = http_get [''page'' \<mapsto> ''abc'']"

definition page_99 :: request where
  "page_99 = http_get [''page'' \<mapsto> ''99'']"

definition page_0 :: request where
  "page_0 = http_get [''page'' \<mapsto> ''0'']"

definition search_django :: request where
  "search_django = http_get [''query'' \<mapsto> ''django'']"

definition search_hello :: request where
  "search_hello = http_get [''query'' \<mapsto> ''hello'']"

definition search_empty :: request where
  "search_empty = http_get [''query'' \<mapsto> '''']"

section \<open>Notions the properties are stated with\<close>

text \<open>The lookups of the detail view: status \<^verbatim>\<open>PUBLISHED\<close>, the three parts of the
  publish date, and the slug.\<close>

definition detail_lookup :: "int \<Rightarrow> int \<Rightarrow> int \<Rightarrow> string \<Rightarrow> post \<Rightarrow> bool" where
  "detail_lookup y m d s p \<longleftrightarrow>
     status p = PUBLISHED \<and> dt_year (publish p) = y \<and> dt_month (publish p) = m \<and>
     dt_day (publish p) = d \<and> slug p = s"

text \<open>The lookups of the share and comment views: the primary key and status
  \<^verbatim>\<open>PUBLISHED\<close>.\<close>

definition by_pk :: "int \<Rightarrow> post \<Rightarrow> bool" where
  "by_pk i p \<longleftrightarrow> pk p = i \<and> status p = PUBLISHED"





text \<open>The query set the list view paginates: the published posts, or those of them that
  carry the tag.\<close>

definition listed :: "world \<Rightarrow> tag option \<Rightarrow> post list" where
  "listed w tg =
     (case tg of
        None \<Rightarrow> Post_published w
      | Some t \<Rightarrow> filter (\<lambda>p. t_pk t \<in> tags p) (Post_published w))"

text \<open>The page the list view settles on: 1 for a value that is no integer, the last page
  for an integer out of range.\<close>

definition resolved_number ::
  "(string \<Rightarrow> int option) \<Rightarrow> 'a paginator \<Rightarrow> page_value \<Rightarrow> int" where
  "resolved_number int_of pg v =
     (case to_int int_of v of
        None \<Rightarrow> 1
      | Some n \<Rightarrow> if n < 1 \<or> n > num_pages pg then num_pages pg else n)"

definition page_value_of :: "request \<Rightarrow> page_value" where
  "page_value_of req = (case GET req ''page'' of None \<Rightarrow> PyInt 1 | Some s \<Rightarrow> PyStr s)"

text \<open>The tag the list view resolves the slug to: none for no slug or an empty one.\<close>

definition resolve_tag :: "world \<Rightarrow> string option \<Rightarrow> error + tag option" where
  "resolve_tag w tag_slug =
     (case tag_slug of
        None \<Rightarrow> Inr None
      | Some s \<Rightarrow>
          if s = [] then Inr None
          else (case get_object_or_404 (Tag_objects w) (\<lambda>t. t_slug t = s) of
                  Inl e \<Rightarrow> Inl e
                | Inr t \<Rightarrow> Inr (Some t)))"

text \<open>The number of tags two posts share, and the order of the similar posts: more shared
  tags with the displayed post \<open>x\<close> first, and among posts with as many, the later
  publish timestamp first.\<close>

definition shared_tags :: "post \<Rightarrow> post \<Rightarrow> nat" where
  "shared_tags x p = card (tags p \<inter> tags x)"

definition ranked :: "post \<Rightarrow> post \<Rightarrow> post \<Rightarrow> bool" where
  "ranked x p q \<longleftrightarrow>
     shared_tags x p > shared_tags x q \<or>
     (shared_tags x p = shared_tags x q \<and> dt_le (publish q) (publish p))"

text \<open>The similarity the search annotates a post with: the single-precision sum of the
  similarity of the title and of the body to the query.\<close>

definition similarity :: "string \<Rightarrow> post \<Rightarrow> rat" where
  "similarity query p =
     float4 (TrigramSimilarity (title p) query + TrigramSimilarity (body p) query)"

section \<open>Properties\<close>

subsection \<open>Fetching one row\<close>

lemma get_object_or_404_Inr: "get_object_or_404 rows P = Inr x \<longleftrightarrow> filter P rows = [x]"
  by (simp add: get_object_or_404_def split: list.splits)

lemma get_object_or_404_Http404:
  "get_object_or_404 rows P = Inl Http404 \<longleftrightarrow> (\<forall>x \<in> set rows. \<not> P x)"
proof -
  have "get_object_or_404 rows P = Inl Http404 \<longleftrightarrow> filter P rows = []"
    by (simp add: get_object_or_404_def split: list.splits)
  then show ?thesis by (simp add: filter_empty_conv)
qed

lemma get_object_or_404_Inl:
  "get_object_or_404 rows P = Inl e \<Longrightarrow> e = Http404 \<or> e = MultipleObjectsReturned"
  by (auto simp: get_object_or_404_def split: list.splits)


lemmas site_defs = site_def p_django_def p_hello_def p_soon_def p_draft_def p_flask_def
  p_notes_def at_date_def

subsection \<open>Post detail: the post\<close>

lemma post_detail_year:
  assumes "y < 1 \<or> 9999 < y"
  shows "post_detail ap w req y m d s =
           Inl (if y < - 2147483648 \<or> 2147483647 < y then OverflowError else ValueError)"
  using assms by (auto simp: post_detail_def)

lemma post_detail_in_range:
  "post_detail ap w req y m d s = Inr ctx \<Longrightarrow> 1 \<le> y \<and> y \<le> 9999"
  by (auto simp: post_detail_def split: if_splits)

lemma post_detail_post:
  "post_detail ap w req y m d s = Inr ctx \<Longrightarrow>
   get_object_or_404 (Post_objects w) (detail_lookup y m d s) = Inr (dc_post ctx)"
  unfolding post_detail_def detail_lookup_def
  by (auto simp: Let_def split: sum.splits if_splits)

lemma post_detail_Inl:
  "1 \<le> y \<Longrightarrow> y \<le> 9999 \<Longrightarrow>
   post_detail ap w req y m d s = Inl e \<longleftrightarrow>
   get_object_or_404 (Post_objects w) (detail_lookup y m d s) = Inl e"
  unfolding post_detail_def detail_lookup_def
  by (auto simp: Let_def split: sum.splits)

lemma post_detail_found:
  "1 \<le> y \<Longrightarrow> y \<le> 9999 \<Longrightarrow>
   get_object_or_404 (Post_objects w) (detail_lookup y m d s) = Inr p \<Longrightarrow>
   \<exists>ctx. post_detail ap w req y m d s = Inr ctx \<and> dc_post ctx = p"
  unfolding post_detail_def detail_lookup_def
  by (auto simp: Let_def split: sum.splits)

text \<open>Several rows that satisfy the lookups are an error of their own, not \<^verbatim>\<open>Http404\<close>.\<close>

lemma post_detail_ambiguous:
  "1 \<le> y \<Longrightarrow> y \<le> 9999 \<Longrightarrow>
   post_detail ap w req y m d s = Inl MultipleObjectsReturned \<longleftrightarrow>
   2 \<le> length (filter (detail_lookup y m d s) (Post_objects w))"
  by (simp add: post_detail_Inl get_object_or_404_def split: list.splits)

text \<open>Claim C1, as the code has it. For a year outside 1..9999 the detail view fails
  before any row is read, with \<^verbatim>\<open>OverflowError\<close> when the year is no C \<^verbatim>\<open>int\<close> and with
  \<^verbatim>\<open>ValueError\<close> otherwise. For a year from 1 to 9999 it answers \<^verbatim>\<open>Http404\<close> exactly
  when no post has status \<^verbatim>\<open>PUBLISHED\<close>, the requested year, month and day of
  publication and the requested slug; it fails with \<^verbatim>\<open>MultipleObjectsReturned\<close> exactly
  when several rows have these four properties; and it shows the post \<open>p\<close> exactly when
  \<open>p\<close> is the one row with them. The publish timestamp is not compared with the clock.\<close>

theorem post_detail_fetch:
  "(y < 1 \<or> 9999 < y \<longrightarrow>
      post_detail ap w req y m d s =
        Inl (if y < - 2147483648 \<or> 2147483647 < y then OverflowError else ValueError)) \<and>
   (1 \<le> y \<and> y \<le> 9999 \<longrightarrow>
      (post_detail ap w req y m d s = Inl Http404 \<longleftrightarrow>
         (\<forall>p \<in> set (Post_objects w). \<not> detail_lookup y m d s p)) \<and>
      (post_detail ap w req y m d s = Inl MultipleObjectsReturned \<longleftrightarrow>
         2 \<le> length (filter (detail_lookup y m d s) (Post_objects w))) \<and>
      ((\<exists>ctx. post_detail ap w req y m d s = Inr ctx \<and> dc_post ctx = p) \<longleftrightarrow>
         filter (detail_lookup y m d s) (Post_objects w) = [p]))"
proof (intro conjI impI)
  assume "y < 1 \<or> 9999 < y"
  then show "post_detail ap w req y m d s =
        Inl (if y < - 2147483648 \<or> 2147483647 < y then OverflowError else ValueError)"
    by (rule post_detail_year)
next
  assume r: "1 \<le> y \<and> y \<le> 9999"
  then show "post_detail ap w req y m d s = Inl Http404 \<longleftrightarrow>
         (\<forall>p \<in> set (Post_objects w). \<not> detail_lookup y m d s p)"
    by (simp add: post_detail_Inl get_object_or_404_Http404)
  from r show "post_detail ap w req y m d s = Inl MultipleObjectsReturned \<longleftrightarrow>
         2 \<le> length (filter (detail_lookup y m d s) (Post_objects w))"
    by (simp add: post_detail_ambiguous)
  from r show "(\<exists>ctx. post_detail ap w req y m d s = Inr ctx \<and> dc_post ctx = p) \<longleftrightarrow>
         filter (detail_lookup y m d s) (Post_objects w) = [p]"
    using post_detail_post [of ap w req y m d s] post_detail_found [of y w m d s p ap req]
    by (auto simp: get_object_or_404_Inr)
qed

text \<open>On the site: a post published on 2024-03-01 under the slug \<^verbatim>\<open>hello\<close> is shown for
  (2024, 3, 1, hello); (2024, 3, 2, hello) is not found; and the year 12024 is a
  \<^verbatim>\<open>ValueError\<close>.\<close>

theorem post_detail_fetch_witness:
  "(\<exists>ctx. post_detail blog site plain_get 2024 3 1 ''hello'' = Inr ctx \<and> dc_post ctx = p_hello) \<and>
   post_detail blog site plain_get 2024 3 2 ''hello'' = Inl Http404 \<and>
   post_detail blog site plain_get 12024 3 1 ''hello'' = Inl ValueError"
  using post_detail_fetch [of 2024 blog site plain_get 3 1 "''hello''" p_hello]
    post_detail_fetch [of 2024 blog site plain_get 3 2 "''hello''" p_hello]
    post_detail_fetch [of 12024 blog site plain_get 3 1 "''hello''" p_hello]
  by (simp add: site_defs detail_lookup_def)

text \<open>Claim C1 as stated fails in three ways. The post \<^verbatim>\<open>soon\<close> has status
  \<^verbatim>\<open>PUBLISHED\<close> and is dated 2030-01-01, after the site's clock (2026-11-03): it is not a
  published post, and the detail view shows it. No post is dated in the year 10000, and
  the request for it is not answered \<^verbatim>\<open>Http404\<close> but fails with \<^verbatim>\<open>ValueError\<close>. And
  where two posts of the same day have the same slug, the request for them is not
  answered \<^verbatim>\<open>Http404\<close> but fails with \<^verbatim>\<open>MultipleObjectsReturned\<close>.\<close>

theorem post_detail_future_counterexample:
  "map_sum id dc_post (post_detail blog site plain_get 2030 1 1 ''soon'') = Inr p_soon \<and>
   \<not> published site p_soon \<and>
   post_detail blog site plain_get 10000 1 1 ''hello'' = Inl ValueError \<and>
   post_detail blog twin_site plain_get 2024 3 1 ''hello'' = Inl MultipleObjectsReturned"
proof -
  have "filter (detail_lookup 2030 1 1 ''soon'') (Post_objects site) = [p_soon]"
    by (simp add: site_defs detail_lookup_def)
  then obtain ctx where "post_detail blog site plain_get 2030 1 1 ''soon'' = Inr ctx"
    "dc_post ctx = p_soon"
    using post_detail_found [of 2030 site 1 1 "''soon''" p_soon blog plain_get]
    by (auto simp: get_object_or_404_Inr)
  moreover have "\<not> published site p_soon"
    by (simp add: published_def dt_le_def dt_key_def site_defs)
  moreover have "post_detail blog site plain_get 10000 1 1 ''hello'' = Inl ValueError"
    by (simp add: post_detail_year)
  moreover have "post_detail blog twin_site plain_get 2024 3 1 ''hello''
                   = Inl MultipleObjectsReturned"
    by (simp add: post_detail_ambiguous detail_lookup_def twin_site_def p_hello_def
        p_hello_again_def at_date_def)
  ultimately show ?thesis by simp
qed

subsection \<open>Bound forms\<close>

lemma is_valid_bind [simp]: "is_valid (bind cls d) \<longleftrightarrow> fst (cls d) = []"
  by (simp add: bind_def)

lemma errors_bind [simp]: "errors (bind cls d) = fst (cls d)"
  by (simp add: bind_def)

lemma cleaned_data_bind [simp]: "cleaned_data (bind cls d) = Some (snd (cls d))"
  by (simp add: bind_def)

subsection \<open>Share and comment: the post\<close>









lemmas request_defs = plain_get_def http_get_def http_post_def ann_comment_def ann_share_def
  anonymous_comment_def bad_share_def two_line_share_def



subsection \<open>Share: the message\<close>






lemma post_share_not_POST:
  assumes "get_object_or_404 (Post_objects w) (by_pk i) = Inr p"
    and "http_method req \<noteq> ''POST''"
  shows "post_share ap w req i = Inr (\<lparr>sh_post = p, sh_form = Unbound, sh_sent = False\<rparr>, w)"
  using assms unfolding post_share_def by_pk_def
  by simp



lemmas form_defs = blog_def blog_EmailPostForm_def blog_CommentForm_def blog_SearchForm_def
  required_def email_field_def field_value_def post_path_def testserver_def

lemma site_by_pk_1: "get_object_or_404 (Post_objects site) (by_pk 1) = Inr p_django"
  by (simp add: get_object_or_404_Inr by_pk_def site_defs)



subsection \<open>Share: the sender\<close>




subsection \<open>Comment\<close>

lemma post_comment_valid:
  assumes "get_object_or_404 (Post_objects w) (by_pk i) = Inr p"
    and "http_method req = ''POST''"
    and "fst (CommentForm ap (POST req)) = []"
  shows "post_comment ap w req i =
     (let c = (form_save (snd (CommentForm ap (POST req))))
                \<lparr>c_post := Some (pk p), c_pk := Some (next_pk (Comment_objects w)),
                 c_created := Some (now w)\<rparr>
      in Inr (\<lparr>cm_post = p, cm_form = bind (CommentForm ap) (POST req), cm_comment = Some c\<rparr>,
              w\<lparr>Comment_objects := Comment_objects w @ [c]\<rparr>))"
  using assms unfolding post_comment_def by_pk_def
  by (simp add: Let_def comment_save_def)

lemma post_comment_invalid:
  assumes "get_object_or_404 (Post_objects w) (by_pk i) = Inr p"
    and "http_method req = ''POST''"
    and "fst (CommentForm ap (POST req)) \<noteq> []"
  shows "post_comment ap w req i =
     Inr (\<lparr>cm_post = p, cm_form = bind (CommentForm ap) (POST req), cm_comment = None\<rparr>, w)"
  using assms unfolding post_comment_def by_pk_def
  by (simp add: Let_def)

text \<open>Claim C6. A request that is not a \<^verbatim>\<open>POST\<close> is answered
  \<^verbatim>\<open>HttpResponseNotAllowed\<close>. On a \<^verbatim>\<open>POST\<close> for a post that is found: when the form is
  valid, the comment table grows by exactly one comment, which is the one in the context,
  belongs to the fetched post and is active; when the form is invalid, nothing is stored,
  the context has no comment and the form in it has field errors.\<close>

theorem post_comment_create:
  "(http_method req \<noteq> ''POST'' \<longrightarrow> post_comment ap w req i = Inl HttpResponseNotAllowed) \<and>
   (http_method req = ''POST'' \<and> get_object_or_404 (Post_objects w) (by_pk i) = Inr p \<longrightarrow>
      (is_valid (bind (CommentForm ap) (POST req)) \<longrightarrow>
         (\<exists>ctx w' c. post_comment ap w req i = Inr (ctx, w') \<and>
            cm_post ctx = p \<and> cm_comment ctx = Some c \<and>
            Comment_objects w' = Comment_objects w @ [c] \<and>
            c_post c = Some (pk p) \<and> c_active c)) \<and>
      (\<not> is_valid (bind (CommentForm ap) (POST req)) \<longrightarrow>
         (\<exists>ctx. post_comment ap w req i = Inr (ctx, w) \<and>
            cm_comment ctx = None \<and> errors (cm_form ctx) \<noteq> [])))"
proof (intro conjI impI)
  assume "http_method req \<noteq> ''POST''"
  then show "post_comment ap w req i = Inl HttpResponseNotAllowed"
    by (simp add: post_comment_def)
next
  assume a: "http_method req = ''POST'' \<and> get_object_or_404 (Post_objects w) (by_pk i) = Inr p"
    and "is_valid (bind (CommentForm ap) (POST req))"
  then have v: "fst (CommentForm ap (POST req)) = []" by simp
  from a have f: "get_object_or_404 (Post_objects w) (by_pk i) = Inr p"
    and m: "http_method req = ''POST''" by simp_all
  show "\<exists>ctx w' c. post_comment ap w req i = Inr (ctx, w') \<and>
            cm_post ctx = p \<and> cm_comment ctx = Some c \<and>
            Comment_objects w' = Comment_objects w @ [c] \<and>
            c_post c = Some (pk p) \<and> c_active c"
    by (simp add: post_comment_valid [OF f m v] Let_def form_save_def)
next
  assume a: "http_method req = ''POST'' \<and> get_object_or_404 (Post_objects w) (by_pk i) = Inr p"
    and "\<not> is_valid (bind (CommentForm ap) (POST req))"
  then have v: "fst (CommentForm ap (POST req)) \<noteq> []" by simp
  from a have f: "get_object_or_404 (Post_objects w) (by_pk i) = Inr p"
    and m: "http_method req = ''POST''" by simp_all
  show "\<exists>ctx. post_comment ap w req i = Inr (ctx, w) \<and>
            cm_comment ctx = None \<and> errors (cm_form ctx) \<noteq> []"
    using v by (simp add: post_comment_invalid [OF f m v])
qed

text \<open>On the site: a \<^verbatim>\<open>GET\<close> is not allowed; Ann's comment on post 1 is stored, for
  post 1 and active; a comment with an empty author name stores nothing and reports the
  field.\<close>

theorem post_comment_create_witness:
  "post_comment blog site plain_get 1 = Inl HttpResponseNotAllowed \<and>
   (\<exists>ctx w' c. post_comment blog site ann_comment 1 = Inr (ctx, w') \<and>
      cm_comment ctx = Some c \<and> Comment_objects w' = [c] \<and> c_post c = Some 1 \<and>
      c_active c) \<and>
   (\<exists>ctx. post_comment blog site anonymous_comment 1 = Inr (ctx, site) \<and>
      cm_comment ctx = None \<and> errors (cm_form ctx) \<noteq> [])"
proof -
  have m: "http_method plain_get \<noteq> ''POST''" "http_method ann_comment = ''POST''"
    "http_method anonymous_comment = ''POST''"
    by (simp_all add: request_defs)
  have v: "is_valid (bind (CommentForm blog) (POST ann_comment))"
    "\<not> is_valid (bind (CommentForm blog) (POST anonymous_comment))"
    by (simp_all add: form_defs request_defs)
  have s: "Comment_objects site = []" "pk p_django = 1"
    by (simp_all add: site_defs)
  from post_comment_create [of plain_get blog site 1 p_django]
    post_comment_create [of ann_comment blog site 1 p_django]
    post_comment_create [of anonymous_comment blog site 1 p_django]
    m v s site_by_pk_1
  show ?thesis by auto
qed

subsection \<open>Pagination\<close>

lemma num_pages_3:
  assumes "per_page pg = 3"
  shows "1 \<le> num_pages pg" and "count pg \<le> 3 * num_pages pg"
proof -
  have "0 \<le> count pg" by (simp add: count_def)
  then show "1 \<le> num_pages pg" and "count pg \<le> 3 * num_pages pg"
    using assms by (auto simp: num_pages_def Let_def max_def)
qed

lemma page_slice:
  assumes "0 \<le> b"
  shows "take (nat ((if b + 3 \<ge> int (length xs) then int (length xs) else b + 3) - b))
           (drop (nat b) xs)
         = take 3 (drop (nat b) xs)"
proof (cases "b + 3 \<ge> int (length xs)")
  case True
  then have "length (drop (nat b) xs) \<le> nat (int (length xs) - b)"
    and "length (drop (nat b) xs) \<le> 3"
    using assms by auto
  then show ?thesis
    using True by simp
next
  case False
  then show ?thesis by simp
qed

lemma get_page_in_range:
  assumes "per_page pg = 3" and "to_int int_of v = Some k" and "1 \<le> k" and "k \<le> num_pages pg"
  shows "get_page int_of pg v =
           Inr \<lparr>object_list = take 3 (drop (nat (3 * (k - 1))) (pg_object_list pg)),
                number = k, paginator = pg\<rparr>"
proof -
  define b where "b = (k - 1) * per_page pg"
  have v: "validate_number int_of pg v = Inr k"
    using assms by (simp add: validate_number_def)
  have "get_page int_of pg v =
          Inr \<lparr>object_list =
                 take (nat ((if b + per_page pg \<ge> count pg then count pg
                             else b + per_page pg) - b))
                   (drop (nat b) (pg_object_list pg)),
               number = k, paginator = pg\<rparr>"
    unfolding get_page_def b_def using v by (simp add: Let_def)
  moreover have "0 \<le> b" and "b = 3 * (k - 1)"
    using assms(1,3) by (simp_all add: b_def)
  ultimately show ?thesis
    using page_slice [of b "pg_object_list pg"] assms(1)
    by (simp only: count_def)
qed

lemma get_page_Inl:
  "get_page int_of pg v = Inl e \<longleftrightarrow>
     (to_int int_of v = None \<and> e = PageNotAnInteger) \<or>
     (\<exists>n. to_int int_of v = Some n \<and> (n < 1 \<or> n > num_pages pg) \<and> e = EmptyPage)"
  by (auto simp: get_page_def validate_number_def Let_def split: option.splits sum.splits if_splits)

text \<open>The \<^verbatim>\<open>try\<close> of the list view never lets an exception of the paginator escape.\<close>

lemma resolve_page:
  assumes "per_page pg = 3"
  shows "(case get_page int_of pg v of
            Inr pa \<Rightarrow> Inr pa
          | Inl e \<Rightarrow>
              if e = PageNotAnInteger then get_page int_of pg (PyInt 1)
              else if e = EmptyPage then get_page int_of pg (PyInt (num_pages pg))
              else Inl e)
         = Inr \<lparr>object_list = take 3 (drop (nat (3 * (resolved_number int_of pg v - 1)))
                                        (pg_object_list pg)),
                number = resolved_number int_of pg v, paginator = pg\<rparr>"
proof (cases "to_int int_of v")
  case None
  then have "get_page int_of pg v = Inl PageNotAnInteger"
    by (simp add: get_page_Inl)
  moreover have "get_page int_of pg (PyInt 1) =
      Inr \<lparr>object_list = take 3 (drop (nat (3 * (1 - 1))) (pg_object_list pg)),
           number = 1, paginator = pg\<rparr>"
    using num_pages_3(1) [OF assms] by (intro get_page_in_range assms) simp_all
  ultimately show ?thesis
    using None by (simp add: resolved_number_def)
next
  case (Some n)
  show ?thesis
  proof (cases "n < 1 \<or> n > num_pages pg")
    case True
    with Some have "get_page int_of pg v = Inl EmptyPage"
      by (simp add: get_page_Inl)
    moreover have "get_page int_of pg (PyInt (num_pages pg)) =
        Inr \<lparr>object_list = take 3 (drop (nat (3 * (num_pages pg - 1))) (pg_object_list pg)),
             number = num_pages pg, paginator = pg\<rparr>"
      using num_pages_3(1) [OF assms] by (intro get_page_in_range assms) simp_all
    ultimately show ?thesis
      using Some True by (simp add: resolved_number_def)
  next
    case False
    with Some have "get_page int_of pg v =
        Inr \<lparr>object_list = take 3 (drop (nat (3 * (n - 1))) (pg_object_list pg)),
             number = n, paginator = pg\<rparr>"
      by (intro get_page_in_range assms) simp_all
    then show ?thesis
      using Some False by (simp add: resolved_number_def)
  qed
qed

lemma last_page_rest:
  assumes "per_page pg = 3"
  shows "take 3 (drop (nat (3 * (num_pages pg - 1))) (pg_object_list pg))
         = drop (nat (3 * (num_pages pg - 1))) (pg_object_list pg)"
  using num_pages_3 [OF assms] by (simp add: count_def)

lemma post_list_result:
  "post_list int_of w req tag_slug =
     (case resolve_tag w tag_slug of
        Inl e \<Rightarrow> Inl e
      | Inr tg \<Rightarrow>
          (let pg = \<lparr>pg_object_list = listed w tg, per_page = 3\<rparr>;
               k = resolved_number int_of pg (page_value_of req)
           in Inr \<lparr>lc_posts = \<lparr>object_list = take 3 (drop (nat (3 * (k - 1))) (listed w tg)),
                                number = k, paginator = pg\<rparr>,
                   lc_tag = tg\<rparr>))"
proof -
  have r: "(case get_page int_of \<lparr>pg_object_list = xs, per_page = 3\<rparr> v of
            Inr pa \<Rightarrow> Inr pa
          | Inl e \<Rightarrow>
              if e = PageNotAnInteger then get_page int_of \<lparr>pg_object_list = xs, per_page = 3\<rparr> (PyInt 1)
              else if e = EmptyPage
                then get_page int_of \<lparr>pg_object_list = xs, per_page = 3\<rparr>
                       (PyInt (num_pages \<lparr>pg_object_list = xs, per_page = 3\<rparr>))
              else Inl e)
         = Inr \<lparr>object_list =
                  take 3 (drop (nat (3 * (resolved_number int_of \<lparr>pg_object_list = xs, per_page = 3\<rparr> v
                                          - 1))) xs),
                number = resolved_number int_of \<lparr>pg_object_list = xs, per_page = 3\<rparr> v,
                paginator = \<lparr>pg_object_list = xs, per_page = 3\<rparr>\<rparr>"
    for xs :: "post list" and v
    using resolve_page [of "\<lparr>pg_object_list = xs, per_page = 3\<rparr>" int_of v] by simp
  show ?thesis
    unfolding post_list_def resolve_tag_def listed_def page_value_of_def [symmetric] Let_def
    by (simp add: r split: option.splits sum.splits)
qed

text \<open>Claim C4. Whatever function \<open>int_of\<close> reads a string as an integer (Python's
  \<^verbatim>\<open>int\<close> is one), the list view fails only when a tag slug is given and the tag is not
  fetched; no value of the page parameter makes it fail. When it returns, the page is cut
  from the paginated posts with 3 to a page and holds at most 3 posts; for a page
  parameter that is no integer it is page 1, the first three posts; for an integer below 1
  or above the number of pages it is the last page, the posts after the pages before it;
  for an integer in range it is that page.\<close>

theorem post_list_pagination:
  "(post_list int_of w req tag_slug = Inl e \<longrightarrow>
      (\<exists>s. tag_slug = Some s \<and> s \<noteq> [] \<and>
           get_object_or_404 (Tag_objects w) (\<lambda>t. t_slug t = s) = Inl e)) \<and>
   (post_list int_of w req tag_slug = Inr ctx \<longrightarrow>
      paginator (lc_posts ctx) = \<lparr>pg_object_list = listed w (lc_tag ctx), per_page = 3\<rparr> \<and>
      length (object_list (lc_posts ctx)) \<le> 3 \<and>
      (\<forall>s. GET req ''page'' = Some s \<and> int_of s = None \<longrightarrow>
           number (lc_posts ctx) = 1 \<and>
           object_list (lc_posts ctx) = take 3 (listed w (lc_tag ctx))) \<and>
      (\<forall>s n. GET req ''page'' = Some s \<and> int_of s = Some n \<and>
             (n < 1 \<or> num_pages (paginator (lc_posts ctx)) < n) \<longrightarrow>
           number (lc_posts ctx) = num_pages (paginator (lc_posts ctx)) \<and>
           object_list (lc_posts ctx) =
             drop (nat (3 * (num_pages (paginator (lc_posts ctx)) - 1)))
               (listed w (lc_tag ctx))) \<and>
      (\<forall>s n. GET req ''page'' = Some s \<and> int_of s = Some n \<and>
             1 \<le> n \<and> n \<le> num_pages (paginator (lc_posts ctx)) \<longrightarrow>
           number (lc_posts ctx) = n \<and>
           object_list (lc_posts ctx) = take 3 (drop (nat (3 * (n - 1))) (listed w (lc_tag ctx)))))"
proof (intro conjI impI)
  assume "post_list int_of w req tag_slug = Inl e"
  then have "resolve_tag w tag_slug = Inl e"
    by (simp add: post_list_result Let_def split: sum.splits)
  then show "\<exists>s. tag_slug = Some s \<and> s \<noteq> [] \<and>
           get_object_or_404 (Tag_objects w) (\<lambda>t. t_slug t = s) = Inl e"
    by (auto simp: resolve_tag_def split: option.splits if_splits sum.splits)
next
  assume a: "post_list int_of w req tag_slug = Inr ctx"
  define pg where "pg = \<lparr>pg_object_list = listed w (lc_tag ctx), per_page = 3\<rparr>"
  define k where "k = resolved_number int_of pg (page_value_of req)"
  from a have pa: "lc_posts ctx =
      \<lparr>object_list = take 3 (drop (nat (3 * (k - 1))) (listed w (lc_tag ctx))),
       number = k, paginator = pg\<rparr>"
    by (auto simp: post_list_result Let_def pg_def k_def split: sum.splits)
  have pp: "per_page pg = 3" "pg_object_list pg = listed w (lc_tag ctx)"
    by (simp_all add: pg_def)
  show "paginator (lc_posts ctx) = \<lparr>pg_object_list = listed w (lc_tag ctx), per_page = 3\<rparr>"
    by (simp add: pa pg_def)
  show "length (object_list (lc_posts ctx)) \<le> 3"
    by (simp add: pa)
  show "\<forall>s. GET req ''page'' = Some s \<and> int_of s = None \<longrightarrow>
           number (lc_posts ctx) = 1 \<and>
           object_list (lc_posts ctx) = take 3 (listed w (lc_tag ctx))"
    by (simp add: pa k_def resolved_number_def page_value_of_def)
  show "\<forall>s n. GET req ''page'' = Some s \<and> int_of s = Some n \<and>
             (n < 1 \<or> num_pages (paginator (lc_posts ctx)) < n) \<longrightarrow>
           number (lc_posts ctx) = num_pages (paginator (lc_posts ctx)) \<and>
           object_list (lc_posts ctx) =
             drop (nat (3 * (num_pages (paginator (lc_posts ctx)) - 1)))
               (listed w (lc_tag ctx))"
    using last_page_rest [OF pp(1)] pp(2)
    by (auto simp: pa k_def resolved_number_def page_value_of_def)
  show "\<forall>s n. GET req ''page'' = Some s \<and> int_of s = Some n \<and>
             1 \<le> n \<and> n \<le> num_pages (paginator (lc_posts ctx)) \<longrightarrow>
           number (lc_posts ctx) = n \<and>
           object_list (lc_posts ctx) = take 3 (drop (nat (3 * (n - 1))) (listed w (lc_tag ctx)))"
    by (auto simp: pa k_def resolved_number_def page_value_of_def)
qed

lemma py_int_examples:
  "py_int ''abc'' = None" "py_int ''99'' = Some 99" "py_int ''0'' = Some 0"
  by code_simp+

text \<open>White space and digits as \<^verbatim>\<open>int\<close> takes them: the character 31 is no white space,
  the no-break space is; a superscript two is no digit.\<close>

lemma py_int_white_space:
  "py_int [CHR 0x1F, CHR ''2''] = None" "py_int [CHR 0xA0, CHR ''2''] = Some 2"
  "py_int [CHR 0x85, CHR ''2'', CHR 0x0A] = Some 2" "py_int [CHR 0xB2] = None"
  "py_int '' +1_0 '' = Some 10" "py_int ''1__0'' = None" "py_int ''- 1'' = None"
  by code_simp+

lemma Post_published_site: "Post_published site = [p_django, p_hello, p_flask, p_notes]"
  by (simp add: Post_published_def published_def dt_le_def dt_key_def site_defs)

text \<open>On the site, which has four published posts: \<^verbatim>\<open>page=abc\<close> gives page 1 with the
  first three; \<^verbatim>\<open>page=99\<close> and \<^verbatim>\<open>page=0\<close> give page 2, the last, with the fourth.\<close>

theorem post_list_pagination_witness:
  "(\<exists>ctx. post_list py_int site page_abc None = Inr ctx \<and> number (lc_posts ctx) = 1 \<and>
      object_list (lc_posts ctx) = [p_django, p_hello, p_flask]) \<and>
   (\<exists>ctx. post_list py_int site page_99 None = Inr ctx \<and> number (lc_posts ctx) = 2 \<and>
      object_list (lc_posts ctx) = [p_notes]) \<and>
   (\<exists>ctx. post_list py_int site page_0 None = Inr ctx \<and> number (lc_posts ctx) = 2 \<and>
      object_list (lc_posts ctx) = [p_notes])"
proof -
  have np: "num_pages \<lparr>pg_object_list = [p_django, p_hello, p_flask, p_notes], per_page = 3\<rparr> = 2"
    by (simp add: num_pages_def count_def)
  have g: "GET page_abc ''page'' = Some ''abc''" "GET page_99 ''page'' = Some ''99''"
    "GET page_0 ''page'' = Some ''0''"
    by (simp_all add: page_abc_def page_99_def page_0_def http_get_def)
  have l: "listed site None = [p_django, p_hello, p_flask, p_notes]"
    by (simp add: listed_def Post_published_site)
  have "post_list py_int site page_abc None \<noteq> Inl e" for e
    using post_list_pagination [of py_int site page_abc None e, THEN conjunct1] by simp
  then obtain c1 where c1: "post_list py_int site page_abc None = Inr c1"
    by (cases "post_list py_int site page_abc None") auto
  have "post_list py_int site page_99 None \<noteq> Inl e" for e
    using post_list_pagination [of py_int site page_99 None e, THEN conjunct1] by simp
  then obtain c2 where c2: "post_list py_int site page_99 None = Inr c2"
    by (cases "post_list py_int site page_99 None") auto
  have "post_list py_int site page_0 None \<noteq> Inl e" for e
    using post_list_pagination [of py_int site page_0 None e, THEN conjunct1] by simp
  then obtain c3 where c3: "post_list py_int site page_0 None = Inr c3"
    by (cases "post_list py_int site page_0 None") auto
  have t: "lc_tag c1 = None" "lc_tag c2 = None" "lc_tag c3 = None"
    using c1 c2 c3 by (auto simp: post_list_result resolve_tag_def Let_def)
  note f1 = post_list_pagination [of py_int site page_abc None Http404 c1, THEN conjunct2, THEN mp, OF c1]
  note f2 = post_list_pagination [of py_int site page_99 None Http404 c2, THEN conjunct2, THEN mp, OF c2]
  note f3 = post_list_pagination [of py_int site page_0 None Http404 c3, THEN conjunct2, THEN mp, OF c3]
  have p1: "paginator (lc_posts c1) =
              \<lparr>pg_object_list = [p_django, p_hello, p_flask, p_notes], per_page = 3\<rparr>"
    and p2: "paginator (lc_posts c2) =
              \<lparr>pg_object_list = [p_django, p_hello, p_flask, p_notes], per_page = 3\<rparr>"
    and p3: "paginator (lc_posts c3) =
              \<lparr>pg_object_list = [p_django, p_hello, p_flask, p_notes], per_page = 3\<rparr>"
    using f1 f2 f3 by (simp_all only: t l)
  from f1 have "py_int ''abc'' = None \<longrightarrow> number (lc_posts c1) = 1 \<and>
      object_list (lc_posts c1) = take 3 (listed site (lc_tag c1))"
    using g(1) by blast
  then have r1: "number (lc_posts c1) = 1 \<and> object_list (lc_posts c1) = [p_django, p_hello, p_flask]"
    by (simp add: py_int_examples t l)
  from f2 have "py_int ''99'' = Some 99 \<and> ((99::int) < 1 \<or> num_pages (paginator (lc_posts c2)) < 99) \<longrightarrow>
      number (lc_posts c2) = num_pages (paginator (lc_posts c2)) \<and>
      object_list (lc_posts c2) =
        drop (nat (3 * (num_pages (paginator (lc_posts c2)) - 1))) (listed site (lc_tag c2))"
    using g(2) by blast
  then have r2: "number (lc_posts c2) = 2 \<and> object_list (lc_posts c2) = [p_notes]"
    by (simp add: py_int_examples t l p2 np)
  from f3 have "py_int ''0'' = Some 0 \<and> (0 < (1::int) \<or> num_pages (paginator (lc_posts c3)) < 0) \<longrightarrow>
      number (lc_posts c3) = num_pages (paginator (lc_posts c3)) \<and>
      object_list (lc_posts c3) =
        drop (nat (3 * (num_pages (paginator (lc_posts c3)) - 1))) (listed site (lc_tag c3))"
    using g(3) by blast
  then have r3: "number (lc_posts c3) = 2 \<and> object_list (lc_posts c3) = [p_notes]"
    by (simp add: py_int_examples t l p3 np)
  from r1 r2 r3 c1 c2 c3 show ?thesis by simp
qed

subsection \<open>Ordering a query set\<close>

lemma set_insort_by: "set (insort_by le x xs) = insert x (set xs)"
  by (induction xs) auto

lemma set_order_by: "set (order_by le xs) = set xs"
  by (induction xs) (simp_all add: order_by_def set_insort_by)

lemma length_insort_by: "length (insort_by le x xs) = Suc (length xs)"
  by (induction xs) auto

lemma length_order_by: "length (order_by le xs) = length xs"
  by (induction xs) (simp_all add: order_by_def length_insort_by)

lemma sorted_wrt_insort_by:
  assumes total: "\<And>a b. le a b \<or> le b a"
    and trans: "\<And>a b c. le a b \<Longrightarrow> le b c \<Longrightarrow> le a c"
  shows "sorted_wrt le xs \<Longrightarrow> sorted_wrt le (insort_by le x xs)"
proof (induction xs)
  case Nil
  then show ?case by simp
next
  case (Cons y ys)
  show ?case
  proof (cases "le x y")
    case True
    with Cons.prems have "\<forall>z \<in> set (y # ys). le x z"
      using trans by auto
    with True Cons.prems show ?thesis by simp
  next
    case False
    then have "le y x" using total [of x y] by simp
    with False Cons show ?thesis
      by (simp add: set_insort_by)
  qed
qed

lemma sorted_wrt_order_by:
  assumes "\<And>a b. le a b \<or> le b a"
    and "\<And>a b c. le a b \<Longrightarrow> le b c \<Longrightarrow> le a c"
  shows "sorted_wrt le (order_by le xs)"
proof (induction xs)
  case Nil
  then show ?case by (simp add: order_by_def)
next
  case (Cons x xs)
  have "order_by le (x # xs) = insort_by le x (order_by le xs)"
    by (simp add: order_by_def)
  with Cons sorted_wrt_insort_by [of le "order_by le xs" x, OF assms] show ?case
    by simp
qed

subsection \<open>Post detail: the similar posts\<close>

lemma by_same_tags_publish_total: "by_same_tags_publish a b \<or> by_same_tags_publish b a"
  unfolding by_same_tags_publish_def dt_le_def
  using linear [of "dt_key (publish (fst a))" "dt_key (publish (fst b))"]
  by (cases "snd a < snd b"; cases "snd b < snd a") auto

lemma by_same_tags_publish_trans:
  "by_same_tags_publish a b \<Longrightarrow> by_same_tags_publish b c \<Longrightarrow> by_same_tags_publish a c"
  unfolding by_same_tags_publish_def dt_le_def
  using order_trans [of "dt_key (publish (fst c))" "dt_key (publish (fst b))"
      "dt_key (publish (fst a))"]
  by auto

lemma post_detail_similar:
  assumes "post_detail ap w req y m d s = Inr ctx"
  shows "dc_similar_posts ctx =
           take 4 (order_by by_same_tags_publish
             (map (\<lambda>p. (p, shared_tags (dc_post ctx) p))
                (filter (\<lambda>p. pk p \<noteq> pk (dc_post ctx))
                   (filter (\<lambda>p. tags p \<inter> tags (dc_post ctx) \<noteq> {}) (Post_published w)))))"
  using assms unfolding post_detail_def shared_tags_def
  by (auto simp: Let_def split: sum.splits if_splits)

text \<open>Claim C3. When the detail view returns, the similar posts are at most 4; each of
  them is another post than the displayed one, is a published post of the site and shares
  at least one tag with the displayed post, and its annotation \<^verbatim>\<open>same_tags\<close> is the
  number of tags it shares with it; and they stand by descending number of shared tags,
  posts with the same number by descending publish timestamp.\<close>

theorem post_detail_similar_posts:
  assumes "post_detail ap w req y m d s = Inr ctx"
  shows "length (dc_similar_posts ctx) \<le> 4 \<and>
         (\<forall>r \<in> set (dc_similar_posts ctx).
            fst r \<noteq> dc_post ctx \<and> pk (fst r) \<noteq> pk (dc_post ctx) \<and>
            fst r \<in> set (Post_objects w) \<and> published w (fst r) \<and>
            tags (fst r) \<inter> tags (dc_post ctx) \<noteq> {} \<and>
            snd r = shared_tags (dc_post ctx) (fst r)) \<and>
         sorted_wrt (ranked (dc_post ctx)) (map fst (dc_similar_posts ctx))"
proof -
  let ?x = "dc_post ctx"
  let ?all = "order_by by_same_tags_publish
             (map (\<lambda>p. (p, shared_tags ?x p))
                (filter (\<lambda>p. pk p \<noteq> pk ?x)
                   (filter (\<lambda>p. tags p \<inter> tags ?x \<noteq> {}) (Post_published w))))"
  have eq: "dc_similar_posts ctx = take 4 ?all"
    by (rule post_detail_similar [OF assms])
  have mem: "fst r \<noteq> ?x \<and> pk (fst r) \<noteq> pk ?x \<and> fst r \<in> set (Post_objects w) \<and>
      published w (fst r) \<and> tags (fst r) \<inter> tags ?x \<noteq> {} \<and> snd r = shared_tags ?x (fst r)"
    if "r \<in> set ?all" for r
    using that by (auto simp: set_order_by Post_published_def)
  have "sorted_wrt by_same_tags_publish ?all"
    by (rule sorted_wrt_order_by) (rule by_same_tags_publish_total, rule by_same_tags_publish_trans)
  then have "sorted_wrt (\<lambda>a b. ranked ?x (fst a) (fst b)) ?all"
  proof (rule sorted_wrt_mono_rel [rotated])
    fix a b
    assume "a \<in> set ?all" "b \<in> set ?all" "by_same_tags_publish a b"
    with mem [of a] mem [of b] show "ranked ?x (fst a) (fst b)"
      by (simp add: by_same_tags_publish_def ranked_def)
  qed
  then have "sorted_wrt (\<lambda>a b. ranked ?x (fst a) (fst b)) (take 4 ?all)"
    by (rule sorted_wrt_take)
  then have s: "sorted_wrt (ranked ?x) (map fst (dc_similar_posts ctx))"
    by (simp add: eq sorted_wrt_map)
  have "length (dc_similar_posts ctx) \<le> 4"
    by (simp add: eq)
  moreover have "\<forall>r \<in> set (dc_similar_posts ctx).
            fst r \<noteq> ?x \<and> pk (fst r) \<noteq> pk ?x \<and> fst r \<in> set (Post_objects w) \<and>
            published w (fst r) \<and> tags (fst r) \<inter> tags ?x \<noteq> {} \<and>
            snd r = shared_tags ?x (fst r)"
    using mem by (auto simp: eq dest: in_set_takeD)
  ultimately show ?thesis using s by blast
qed

lemma post_detail_django:
  "post_detail blog site plain_get 2024 3 1 ''django'' =
     Inr \<lparr>dc_post = p_django, dc_comments = [], dc_form = Unbound,
          dc_similar_posts = [(p_flask, 2), (p_hello, 1)]\<rparr>"
  by (simp add: post_detail_def get_object_or_404_def Post_published_def published_def
      dt_le_def dt_key_def order_by_def by_same_tags_publish_def site_defs Let_def)

text \<open>On the site: next to the post \<^verbatim>\<open>django\<close> (tags 1 and 2) stand \<^verbatim>\<open>flask\<close>, which
  shares both tags, and then \<^verbatim>\<open>hello\<close>, which shares one; the draft, the post dated in
  the future and the post without a common tag are left out.\<close>

theorem post_detail_similar_posts_witness:
  "(\<exists>ctx. post_detail blog site plain_get 2024 3 1 ''django'' = Inr ctx \<and>
      dc_post ctx = p_django \<and>
      map fst (dc_similar_posts ctx) = [p_flask, p_hello] \<and>
      length (dc_similar_posts ctx) \<le> 4 \<and>
      p_django \<notin> fst ` set (dc_similar_posts ctx) \<and>
      sorted_wrt (ranked p_django) (map fst (dc_similar_posts ctx)))"
proof -
  from post_detail_similar_posts [OF post_detail_django]
  have "length [(p_flask, 2::nat), (p_hello, 1)] \<le> 4"
    and "\<forall>r \<in> set [(p_flask, 2::nat), (p_hello, 1)]. fst r \<noteq> p_django"
    and "sorted_wrt (ranked p_django) (map fst [(p_flask, 2::nat), (p_hello, 1)])"
    by simp_all
  then show ?thesis
    by (auto simp: post_detail_django image_iff)
qed

subsection \<open>Single precision\<close>

lemma pow2_nat: "0 \<le> k \<Longrightarrow> (2::rat) powi k = of_int (2 ^ nat k)"
  by (simp add: power_int_def)

lemma ilog2_bounds:
  assumes "0 < y"
  shows "2 powi (ilog2 y) \<le> y" and "y < 2 powi (ilog2 y + 1)"
proof -
  obtain n d where q: "quotient_of y = (n, d)" by (cases "quotient_of y")
  then have d: "0 < d" and y: "y = of_int n / of_int d"
    using quotient_of_denom_pos [OF q] quotient_of_div [OF q] by simp_all
  with assms have n: "0 < n"
    by (simp add: zero_less_divide_iff)
  define bn where "bn = bitlen n"
  define bd where "bd = bitlen d"
  have bn: "2 ^ nat (bn - 1) \<le> n" "n < 2 ^ nat bn" "1 \<le> bn"
    using bitlen_bounds [OF n] n by (auto simp: bn_def bitlen_alt_def)
  have bd: "2 ^ nat (bd - 1) \<le> d" "d < 2 ^ nat bd" "1 \<le> bd"
    using bitlen_bounds [OF d] d by (auto simp: bd_def bitlen_alt_def)
  have rn: "(2::rat) powi (bn - 1) \<le> of_int n" "of_int n < (2::rat) powi bn"
    using bn by (simp_all add: pow2_nat flip: of_int_le_iff of_int_less_iff)
  have rd: "(2::rat) powi (bd - 1) \<le> of_int d" "of_int d < (2::rat) powi bd"
    using bd by (simp_all add: pow2_nat  flip: of_int_le_iff of_int_less_iff)
  have dpos: "(0::rat) < of_int d" using d by simp
  have up: "y < 2 powi (bn - bd + 1)"
  proof -
    have "y < 2 powi bn / of_int d"
      unfolding y using rn(2) dpos by (simp add: divide_strict_right_mono)
    also have "\<dots> \<le> 2 powi bn / 2 powi (bd - 1)"
      using rd(1) by (simp add: frac_le)
    also have "\<dots> = 2 powi (bn - (bd - 1))"
      by (simp add: power_int_diff [symmetric])
    also have "bn - (bd - 1) = bn - bd + 1"
      by simp
    finally show ?thesis .
  qed
  have lo: "2 powi (bn - bd - 1) < y"
  proof -
    have e: "bn - bd - 1 = bn - 1 - bd"
      by simp
    have "2 powi (bn - bd - 1) = 2 powi (bn - 1) / (2::rat) powi bd"
      unfolding e by (rule power_int_diff) simp
    also have "\<dots> < 2 powi (bn - 1) / of_int d"
      using rd(2) dpos by (simp add: divide_strict_left_mono)
    also have "\<dots> \<le> y"
      unfolding y using rn(1) dpos by (simp add: divide_right_mono)
    finally show ?thesis .
  qed
  have il: "ilog2 y = (if 2 powi (bn - bd) \<le> y then bn - bd else bn - bd - 1)"
    by (simp add: ilog2_def q bn_def bd_def Let_def)
  show "2 powi (ilog2 y) \<le> y"
    using lo by (simp add: il)
  show "y < 2 powi (ilog2 y + 1)"
    using up by (auto simp: il not_le)
qed


lemma round_half_even_nonneg: "0 \<le> y \<Longrightarrow> 0 \<le> round_half_even y"
  by (auto simp: round_half_even_def Let_def)

lemma round_half_even_le: "y \<le> of_int K \<Longrightarrow> round_half_even y \<le> K"
proof -
  assume a: "y \<le> of_int K"
  then have f: "\<lfloor>y\<rfloor> \<le> K" by (simp add: floor_le_iff) 
  show ?thesis
  proof (cases "\<lfloor>y\<rfloor> = K")
    case True
    with a have "y = of_int K"
      by (metis of_int_floor_le order_antisym)
    then show ?thesis by (simp add: round_half_even_def)
  next
    case False
    with f have "\<lfloor>y\<rfloor> + 1 \<le> K" by simp
    then show ?thesis by (auto simp: round_half_even_def Let_def)
  qed
qed

lemma float4_nonneg: "0 \<le> x \<Longrightarrow> 0 \<le> float4 x"
  by (auto simp: float4_def Let_def round_half_even_nonneg sgn_if)

lemma float4_le_pow2:
  assumes "0 \<le> x" and "x \<le> 2 powi m" and "- 126 \<le> m"
  shows "float4 x \<le> 2 powi m"
proof (cases "x = 0")
  case True
  then show ?thesis by (simp add: float4_def)
next
  case False
  with assms have x: "0 < x" by simp
  define e where "e = max (ilog2 x) (- 126)"
  define u :: rat where "u = 2 powi (e - 23)"
  have "(2::rat) powi (ilog2 x) \<le> 2 powi m"
    using ilog2_bounds(1) [OF x] assms(2) by simp
  then have "ilog2 x \<le> m"
    using power_int_strict_increasing [of m "ilog2 x" "2::rat"] by (cases "ilog2 x \<le> m") auto
  with assms(3) have em: "e \<le> m" by (simp add: e_def)
  have u: "0 < u" by (simp add: u_def)
  have "(2::rat) powi m = 2 powi (m - e + 23) * u"
    by (simp add: u_def power_int_add [symmetric])
  also have "(2::rat) powi (m - e + 23) = of_int (2 ^ nat (m - e + 23))"
    using em by (intro pow2_nat) simp
  finally have m: "(2::rat) powi m = of_int (2 ^ nat (m - e + 23)) * u" .
  have "x / u \<le> of_int (2 ^ nat (m - e + 23))"
    using assms(2) u by (simp add: m pos_divide_le_eq)
  then have "round_half_even (x / u) \<le> 2 ^ nat (m - e + 23)"
    by (rule round_half_even_le)
  then have "of_int (round_half_even (x / u)) * u \<le> of_int (2 ^ nat (m - e + 23)) * u"
    using u by (simp only: mult_le_cancel_right_pos of_int_le_iff)
  moreover have "float4 x = of_int (round_half_even (x / u)) * u"
    using x by (simp add: float4_def Let_def e_def u_def)
  ultimately show ?thesis by (simp only: m)
qed

lemma float4_unit: "0 \<le> x \<Longrightarrow> x \<le> 1 \<Longrightarrow> 0 \<le> float4 x \<and> float4 x \<le> 1"
  using float4_le_pow2 [of x 0] float4_nonneg [of x] by simp

lemma float4_two: "0 \<le> x \<Longrightarrow> x \<le> 2 \<Longrightarrow> 0 \<le> float4 x \<and> float4 x \<le> 2"
  using float4_le_pow2 [of x 1] float4_nonneg [of x] by simp


lemma float8_tenth_ge: "1 / 10 \<le> float8_tenth"
  by (simp add: float8_tenth_def)

lemma float4_nonpos: "x \<le> 0 \<Longrightarrow> float4 x \<le> 0"
proof -
  have "0 \<le> \<bar>x\<bar> / 2 powi (max (ilog2 \<bar>x\<bar>) (- 126) - 23)"
    by (intro divide_nonneg_pos) simp_all
  then have "0 \<le> round_half_even (\<bar>x\<bar> / 2 powi (max (ilog2 \<bar>x\<bar>) (- 126) - 23))"
    by (rule round_half_even_nonneg)
  moreover assume "x \<le> 0"
  ultimately show ?thesis
    by (simp add: float4_def Let_def sgn_if mult_le_0_iff)
qed

lemma float4_tenth:
  assumes "1 / 10 \<le> float4 x"
  shows "float8_tenth \<le> float4 x"
proof -
  have x: "0 < x"
    using assms float4_nonpos [of x] by (cases "0 < x") auto
  define e where "e = ilog2 x"
  have e: "- 4 \<le> e"
  proof (rule ccontr)
    assume "\<not> - 4 \<le> e"
    then have "e + 1 \<le> - 4" by simp
    then have "(2::rat) powi (e + 1) \<le> 2 powi (- 4)"
      by (intro power_int_increasing) simp_all
    with ilog2_bounds(2) [OF x] have "x \<le> 2 powi (- 4)"
      by (simp add: e_def)
    with x have "float4 x \<le> 2 powi (- 4)"
      by (intro float4_le_pow2) simp_all
    with assms show False by simp
  qed
  define R where "R = round_half_even (x / 2 powi (e - 23))"
  define J where "J = R * 2 ^ nat (e + 4)"
  have "(2::rat) powi (e - 23) = 2 powi (e + 4) * 2 powi (- 27)"
    using power_int_add [of "2::rat" "e + 4" "- 27"] by simp
  also have "(2::rat) powi (e + 4) = of_int (2 ^ nat (e + 4))"
    using e by (intro pow2_nat) simp
  finally have u: "(2::rat) powi (e - 23) = of_int (2 ^ nat (e + 4)) / 134217728"
    by simp
  have "float4 x = of_int R * 2 powi (e - 23)"
    using x e by (simp add: float4_def Let_def e_def R_def max_def)
  then have f: "float4 x = of_int J / 134217728"
    by (simp add: u J_def)
  with assms have "(134217728::rat) \<le> of_int (10 * J)"
    by simp
  then have "rat_of_int 134217728 \<le> of_int (10 * J)"
    by simp
  then have "134217728 \<le> 10 * J"
    by (simp only: of_int_le_iff)
  then have "13421773 \<le> J" by simp
  then have "rat_of_int 13421773 \<le> of_int J"
    by (simp only: of_int_le_iff)
  then have "(13421773::rat) \<le> of_int J"
    by simp
  then show ?thesis
    by (simp add: f float8_tenth_def)
qed

lemma float4_tenth_iff: "float8_tenth \<le> float4 x \<longleftrightarrow> 1 / 10 \<le> float4 x"
  using float4_tenth [of x] float8_tenth_ge by auto

text \<open>Two similarities whose quotients are 2/25 and 1/50 add up, in single precision, to
  less than 0.1.\<close>

lemma float4_sum_below_tenth:
  "float4 (float4 (2 / 25) + float4 (1 / 50)) = 3355443 / 33554432"
  "float4 (float4 (2 / 25) + float4 (1 / 50)) < 1 / 10"
  by code_simp+

subsection \<open>Search\<close>

lemma finite_trigrams: "finite (trigrams s)"
  by (simp add: trigrams_def)

lemma TrigramSimilarity_range: "0 \<le> TrigramSimilarity a b \<and> TrigramSimilarity a b \<le> 1"
proof -
  let ?A = "trigrams a" and ?B = "trigrams b"
  have le: "card (?A \<inter> ?B) \<le> card ?A" "card (?A \<inter> ?B) \<le> card ?B"
    by (simp_all add: card_mono finite_trigrams)
  show ?thesis
  proof (cases "card ?A = 0 \<or> card ?B = 0")
    case True
    then show ?thesis by (auto simp: TrigramSimilarity_def Let_def)
  next
    case False
    with le have "card (?A \<inter> ?B) \<le> card ?A + card ?B - card (?A \<inter> ?B)"
      and "0 < card ?A + card ?B - card (?A \<inter> ?B)"
      by linarith+
    then have "(of_nat (card (?A \<inter> ?B)) :: rat)
                 \<le> of_nat (card ?A + card ?B - card (?A \<inter> ?B))"
      and "(0::rat) < of_nat (card ?A + card ?B - card (?A \<inter> ?B))"
      by (simp_all only: of_nat_le_iff of_nat_0_less_iff)
    then have "(of_nat (card (?A \<inter> ?B)) :: rat)
                 / of_nat (card ?A + card ?B - card (?A \<inter> ?B)) \<le> 1"
      by (simp add: divide_le_eq)
    moreover have "(0::rat) \<le> of_nat (card (?A \<inter> ?B))
                 / of_nat (card ?A + card ?B - card (?A \<inter> ?B))"
      by simp
    ultimately have "0 \<le> float4 (of_nat (card (?A \<inter> ?B))
                 / of_nat (card ?A + card ?B - card (?A \<inter> ?B))) \<and>
        float4 (of_nat (card (?A \<inter> ?B))
                 / of_nat (card ?A + card ?B - card (?A \<inter> ?B))) \<le> 1"
      by (intro float4_unit)
    with False show ?thesis
      by (simp add: TrigramSimilarity_def Let_def)
  qed
qed

lemma similarity_range: "0 \<le> similarity q p \<and> similarity q p \<le> 2"
  unfolding similarity_def
  using TrigramSimilarity_range [of "title p" q] TrigramSimilarity_range [of "body p" q]
  by (intro float4_two) simp_all

lemma post_search_valid:
  assumes "GET req ''query'' \<noteq> None" and "fst (SearchForm ap (GET req)) = []"
  shows "post_search ap w req =
     Inr \<lparr>sr_form = bind (SearchForm ap) (GET req),
          sr_query = Some (snd (SearchForm ap (GET req))),
          sr_results = order_by by_similarity
            (filter (\<lambda>r. snd r \<ge> float8_tenth)
               (map (\<lambda>p. (p, similarity (snd (SearchForm ap (GET req))) p))
                  (Post_published w)))\<rparr>"
  using assms by (simp add: post_search_def Let_def similarity_def)

lemma post_search_invalid:
  assumes "GET req ''query'' \<noteq> None" and "fst (SearchForm ap (GET req)) \<noteq> []"
  shows "post_search ap w req =
     Inr \<lparr>sr_form = bind (SearchForm ap) (GET req), sr_query = None, sr_results = []\<rparr>"
  using assms by (simp add: post_search_def Let_def)

lemma post_search_absent:
  assumes "GET req ''query'' = None"
  shows "post_search ap w req = Inr \<lparr>sr_form = Unbound, sr_query = None, sr_results = []\<rparr>"
  using assms by (simp add: post_search_def)

lemma post_search_results:
  "post_search ap w req = Inr ctx \<Longrightarrow>
   sr_results ctx = [] \<or>
   (\<exists>q. sr_query ctx = Some q \<and> cleaned_data (sr_form ctx) = Some q \<and>
     sr_results ctx = order_by by_similarity
            (filter (\<lambda>r. snd r \<ge> float8_tenth) (map (\<lambda>p. (p, similarity q p)) (Post_published w))))"
  by (cases "GET req ''query'' = None"; cases "fst (SearchForm ap (GET req)) = []")
    (auto simp: post_search_valid post_search_invalid post_search_absent)

lemma post_search_returns: "\<exists>ctx. post_search ap w req = Inr ctx"
  by (cases "GET req ''query'' = None"; cases "fst (SearchForm ap (GET req)) = []")
    (auto simp: post_search_valid post_search_invalid post_search_absent)

lemma by_similarity_total: "by_similarity a b \<or> by_similarity b a"
  by (auto simp: by_similarity_def)

lemma by_similarity_trans: "by_similarity a b \<Longrightarrow> by_similarity b c \<Longrightarrow> by_similarity a c"
  by (auto simp: by_similarity_def)

lemma mset_insort_by: "mset (insort_by le x xs) = add_mset x (mset xs)"
  by (induction xs) auto

lemma mset_order_by: "mset (order_by le xs) = mset xs"
  by (induction xs) (simp_all add: order_by_def mset_insort_by)

lemma fst_filter_annotated:
  "map fst (filter (\<lambda>r. c \<le> snd r) (map (\<lambda>p. (p, f p)) ps)) = filter (\<lambda>p. c \<le> f p) ps"
  by (induction ps) auto

text \<open>A single-precision number is at least the double-precision 0.1 exactly when it is
  at least 0.1.\<close>

lemma similarity_tenth: "float8_tenth \<le> similarity q p \<longleftrightarrow> 1 / 10 \<le> similarity q p"
  unfolding similarity_def by (rule float4_tenth_iff)

text \<open>Claim C7, as the code has it. For a query parameter that is present and valid, the
  search returns; each result is annotated with its similarity, the single-precision sum
  of the trigram similarity of its title and of its body to the query; the results are
  exactly the published posts whose similarity is at least 0.1, each as often as it is
  among the published posts; and they stand by descending similarity. A post that is not
  published is not returned.\<close>

theorem post_search_ranking:
  assumes "GET req ''query'' \<noteq> None" and "is_valid (bind (SearchForm ap) (GET req))"
  shows "\<exists>ctx q. post_search ap w req = Inr ctx \<and>
           cleaned_data (bind (SearchForm ap) (GET req)) = Some q \<and> sr_query ctx = Some q \<and>
           (\<forall>r \<in> set (sr_results ctx). snd r = similarity q (fst r)) \<and>
           mset (map fst (sr_results ctx))
             = mset (filter (\<lambda>p. 1 / 10 \<le> similarity q p) (Post_published w)) \<and>
           sorted_wrt (\<lambda>a b. snd b \<le> snd a) (sr_results ctx)"
proof -
  let ?q = "snd (SearchForm ap (GET req))"
  let ?rs = "order_by by_similarity
            (filter (\<lambda>r. snd r \<ge> float8_tenth) (map (\<lambda>p. (p, similarity ?q p)) (Post_published w)))"
  from assms have v: "fst (SearchForm ap (GET req)) = []" by simp
  have "sorted_wrt by_similarity ?rs"
    by (rule sorted_wrt_order_by) (rule by_similarity_total, rule by_similarity_trans)
  then have 1: "sorted_wrt (\<lambda>a b. snd b \<le> snd a) ?rs"
    by (rule sorted_wrt_mono_rel [rotated]) (simp add: by_similarity_def)
  have 2: "\<forall>r \<in> set ?rs. snd r = similarity ?q (fst r)"
    by (auto simp: set_order_by)
  have "mset (map fst ?rs)
          = mset (map fst (filter (\<lambda>r. snd r \<ge> float8_tenth)
                             (map (\<lambda>p. (p, similarity ?q p)) (Post_published w))))"
    by (simp only: mset_map mset_order_by)
  then have 3: "mset (map fst ?rs)
          = mset (filter (\<lambda>p. 1 / 10 \<le> similarity ?q p) (Post_published w))"
    by (simp only: fst_filter_annotated similarity_tenth)
  define ctx where "ctx = \<lparr>sr_form = bind (SearchForm ap) (GET req), sr_query = Some ?q,
                             sr_results = ?rs\<rparr>"
  have res: "sr_results ctx = ?rs" and qu: "sr_query ctx = Some ?q"
    by (simp_all add: ctx_def)
  have ret: "post_search ap w req = Inr ctx"
    unfolding ctx_def by (rule post_search_valid [OF assms(1) v])
  show ?thesis
  proof (rule exI [of _ ctx], rule exI [of _ ?q], intro conjI)
    show "post_search ap w req = Inr ctx" by (rule ret)
    show "cleaned_data (bind (SearchForm ap) (GET req)) = Some ?q" by simp
    show "sr_query ctx = Some ?q" by (rule qu)
    show "\<forall>r \<in> set (sr_results ctx). snd r = similarity ?q (fst r)"
      using 2 by (simp only: res)
    show "mset (map fst (sr_results ctx))
            = mset (filter (\<lambda>p. 1 / 10 \<le> similarity ?q p) (Post_published w))"
      using 3 by (simp only: res)
    show "sorted_wrt (\<lambda>a b. snd b \<le> snd a) (sr_results ctx)"
      using 1 by (simp only: res)
  qed
qed

lemma similarity_django:
  "similarity ''django'' p_django = 2" "similarity ''django'' p_hello = 0"
  "similarity ''django'' p_flask = 13816531 / 33554432" "similarity ''django'' p_notes = 0"
  "similarity ''django'' p_draft = 2"
  by code_simp+

lemma draft_similarities:
  "TrigramSimilarity (title p_draft) ''django'' = 1"
  "TrigramSimilarity (body p_draft) ''django'' = 1"
  by code_simp+

lemma search_django_valid:
  "GET search_django ''query'' \<noteq> None" "fst (SearchForm blog (GET search_django)) = []"
  "snd (SearchForm blog (GET search_django)) = ''django''"
  by (simp_all add: search_django_def http_get_def form_defs)

lemma post_search_django:
  "post_search blog site search_django =
     Inr \<lparr>sr_form = bind (SearchForm blog) (GET search_django), sr_query = Some ''django'',
          sr_results = [(p_django, 2), (p_flask, 13816531 / 33554432)]\<rparr>"
  by (simp add: post_search_valid [OF search_django_valid(1,2)] search_django_valid(3)
      Post_published_site similarity_django order_by_def by_similarity_def float8_tenth_def)

text \<open>On the site: the query \<^verbatim>\<open>django\<close> finds the post \<^verbatim>\<open>django\<close> and the post
  \<^verbatim>\<open>flask\<close>, in this order.\<close>

theorem post_search_ranking_witness:
  "\<exists>ctx. post_search blog site search_django = Inr ctx \<and> sr_query ctx = Some ''django'' \<and>
     mset (map fst (sr_results ctx)) = mset [p_django, p_flask] \<and>
     sorted_wrt (\<lambda>a b. snd b \<le> snd a) (sr_results ctx)"
proof -
  have v: "is_valid (bind (SearchForm blog) (GET search_django))"
    by (simp add: search_django_valid)
  have f: "filter (\<lambda>p. 1 / 10 \<le> similarity ''django'' p) (Post_published site)
             = [p_django, p_flask]"
    by (simp add: Post_published_site similarity_django)
  from post_search_ranking [OF search_django_valid(1) v, of site]
  obtain ctx q where r: "post_search blog site search_django = Inr ctx"
    "cleaned_data (bind (SearchForm blog) (GET search_django)) = Some q"
    "sr_query ctx = Some q"
    "mset (map fst (sr_results ctx))
       = mset (filter (\<lambda>p. 1 / 10 \<le> similarity q p) (Post_published site))"
    "sorted_wrt (\<lambda>a b. snd b \<le> snd a) (sr_results ctx)"
    by blast
  from r(2) have q: "q = ''django''"
    by (simp add: search_django_valid(3))
  from r(4) have "mset (map fst (sr_results ctx)) = mset [p_django, p_flask]"
    by (simp only: q f)
  with r(1,3,5) q show ?thesis by blast
qed

text \<open>Claim C7 as stated fails: the draft has title and body \<^verbatim>\<open>django\<close>, its similarity
  to the query \<^verbatim>\<open>django\<close> is 2, and the search does not return it.\<close>

theorem post_search_draft_counterexample:
  "p_draft \<in> set (Post_objects site) \<and>
   1 / 10 \<le> TrigramSimilarity (title p_draft) ''django'' + TrigramSimilarity (body p_draft) ''django'' \<and>
   map_sum id (\<lambda>c. (sr_query c, map fst (sr_results c))) (post_search blog site search_django)
     = Inr (Some ''django'', [p_django, p_flask]) \<and>
   p_draft \<notin> set [p_django, p_flask]"
proof -
  have "p_draft \<in> set (Post_objects site)"
    by (simp add: site_def)
  moreover have "1 / 10 \<le> TrigramSimilarity (title p_draft) ''django''
                   + TrigramSimilarity (body p_draft) ''django''"
    using draft_similarities by simp
  moreover have "p_draft \<notin> set [p_django, p_flask]"
    by (simp add: site_defs)
  ultimately show ?thesis
    by (simp add: post_search_django)
qed

lemma post_search_in_range:
  "post_search ap w req = Inr ctx \<Longrightarrow> r \<in> set (sr_results ctx) \<Longrightarrow>
   1 / 10 \<le> snd r \<and> snd r \<le> 2"
  using post_search_results [of ap w req ctx] similarity_range float8_tenth_ge
  by (auto simp: set_order_by)

text \<open>Claim C8, as the code has it. The search always returns, and the similarity
  annotated on a result, the sum of two trigram similarities, is at least 0.1 and at most
  2; it can exceed 1.\<close>

theorem post_search_similarity_range:
  "(\<exists>ctx. post_search ap w req = Inr ctx) \<and>
   (\<forall>ctx. post_search ap w req = Inr ctx \<longrightarrow>
      (\<forall>r \<in> set (sr_results ctx). 1 / 10 \<le> snd r \<and> snd r \<le> 2))"
  using post_search_returns [of ap w req] post_search_in_range [of ap w req]
  by blast

lemma similarity_hello:
  "similarity ''hello'' p_django = 0" "similarity ''hello'' p_hello = 3 / 2"
  "similarity ''hello'' p_flask = 0" "similarity ''hello'' p_notes = 0"
  by code_simp+

lemma search_hello_valid:
  "GET search_hello ''query'' \<noteq> None" "fst (SearchForm blog (GET search_hello)) = []"
  "snd (SearchForm blog (GET search_hello)) = ''hello''"
  by (simp_all add: search_hello_def http_get_def form_defs)

lemma post_search_hello:
  "post_search blog site search_hello =
     Inr \<lparr>sr_form = bind (SearchForm blog) (GET search_hello), sr_query = Some ''hello'',
          sr_results = [(p_hello, 3 / 2)]\<rparr>"
  by (simp add: post_search_valid [OF search_hello_valid(1,2)] search_hello_valid(3)
      Post_published_site similarity_hello order_by_def by_similarity_def float8_tenth_def)

text \<open>On the site: the one result of the query \<^verbatim>\<open>hello\<close> has a similarity between 0.1
  and 2.\<close>

theorem post_search_similarity_range_witness:
  "\<exists>ctx. post_search blog site search_hello = Inr ctx \<and>
     sr_results ctx = [(p_hello, 3 / 2)] \<and>
     1 / 10 \<le> snd (p_hello, 3 / 2 :: rat) \<and> snd (p_hello, 3 / 2 :: rat) \<le> 2"
proof -
  have "(p_hello, 3 / 2) \<in> set (sr_results \<lparr>sr_form = bind (SearchForm blog) (GET search_hello),
          sr_query = Some ''hello'', sr_results = [(p_hello, 3 / 2)]\<rparr>)"
    by simp
  with post_search_similarity_range [of blog site search_hello] post_search_hello
  have "1 / 10 \<le> snd (p_hello, 3 / 2 :: rat) \<and> snd (p_hello, 3 / 2 :: rat) \<le> 2"
    by blast
  with post_search_hello show ?thesis by simp
qed

text \<open>Claim C8 as stated fails: the post \<^verbatim>\<open>hello\<close> is returned for the query
  \<^verbatim>\<open>hello\<close> with similarity 3/2, which is not in [0, 1].\<close>

theorem post_search_similarity_counterexample:
  "map_sum id sr_results (post_search blog site search_hello) = Inr [(p_hello, 3 / 2)] \<and>
   \<not> (3 / 2 :: rat) \<le> 1"
  by (simp add: post_search_hello)

text \<open>Claim C9, as the code has it. The search always returns. Without a query parameter
  the context has the unbound form, no query and no results. With a query parameter that
  fails validation it has no query and no results, and the form is the one bound to the
  submitted parameters, which carries the field errors.\<close>

theorem post_search_no_query:
  "(\<exists>ctx. post_search ap w req = Inr ctx) \<and>
   (GET req ''query'' = None \<longrightarrow>
      post_search ap w req = Inr \<lparr>sr_form = Unbound, sr_query = None, sr_results = []\<rparr>) \<and>
   (GET req ''query'' \<noteq> None \<and> \<not> is_valid (bind (SearchForm ap) (GET req)) \<longrightarrow>
      post_search ap w req =
        Inr \<lparr>sr_form = bind (SearchForm ap) (GET req), sr_query = None, sr_results = []\<rparr> \<and>
      errors (bind (SearchForm ap) (GET req)) \<noteq> [])"
  using post_search_returns [of ap w req] post_search_absent [of req ap w]
    post_search_invalid [of req ap w]
  by simp

lemma search_empty_invalid:
  "GET search_empty ''query'' = Some []"
  "errors (bind (SearchForm blog) (GET search_empty)) = [(''query'', ''This field is required.'')]"
  by (simp_all add: search_empty_def http_get_def form_defs)

text \<open>On the site: a request without parameters, and a request with an empty query.\<close>

theorem post_search_no_query_witness:
  "post_search blog site plain_get = Inr \<lparr>sr_form = Unbound, sr_query = None, sr_results = []\<rparr> \<and>
   post_search blog site search_empty =
     Inr \<lparr>sr_form = bind (SearchForm blog) (GET search_empty), sr_query = None,
          sr_results = []\<rparr>"
proof -
  have "GET plain_get ''query'' = None"
    by (simp add: plain_get_def http_get_def)
  moreover have "GET search_empty ''query'' \<noteq> None"
    "\<not> is_valid (bind (SearchForm blog) (GET search_empty))"
    using search_empty_invalid by simp_all
  ultimately show ?thesis
    using post_search_no_query [of blog site plain_get]
      post_search_no_query [of blog site search_empty]
    by blast
qed

text \<open>Claim C9 as stated fails: for the empty query, which is present and fails
  validation, the form in the context is not the empty form; it is bound and holds the
  error of the field.\<close>

theorem post_search_invalid_counterexample:
  "GET search_empty ''query'' = Some [] \<and>
   \<not> is_valid (bind (SearchForm blog) (GET search_empty)) \<and>
   map_sum id (\<lambda>c. (is_bound (sr_form c), errors (sr_form c)))
       (post_search blog site search_empty)
     = Inr (True, [(''query'', ''This field is required.'')])"
proof -
  have e: "fst (SearchForm blog (GET search_empty)) \<noteq> []"
    using search_empty_invalid(2) by simp
  have "GET search_empty ''query'' \<noteq> None"
    by (simp add: search_empty_invalid(1))
  from post_search_invalid [OF this e, of site] search_empty_invalid e
  show ?thesis
    by (simp add: bind_def)
qed

end
